theory Spec2Isabelle
  imports Main "HOL-Library.Char_ord" "HOL-Library.List_Lexorder" "HOL-Library.Multiset"
begin

section \<open>Flow client: request signing and dispatch\<close>

text \<open>
  A shallow embedding of the class \<^verbatim>\<open>FlowClient\<close> of \<^verbatim>\<open>src/services/flow/client.ts\<close> and
  of the declarations it imports from \<^verbatim>\<open>./types\<close>. A JavaScript string is a \<^typ>\<open>string\<close>:
  every \<^typ>\<open>char\<close> stands for one code unit, and the order on strings (\<^verbatim>\<open>Char_ord\<close>,
  \<^verbatim>\<open>List_Lexorder\<close>) is the lexicographic order on code units that
  \<^verbatim>\<open>Array.prototype.sort()\<close> uses without a comparator. A JavaScript number is an
  \<^typ>\<open>int\<close>: the model covers the safe integers (magnitude below \<open>2^53\<close>), the numbers for
  which \<^verbatim>\<open>ToString\<close> yields the decimal digits of the value. A larger integer prints as a
  rounded double and a fraction has no value in the model, so a statement about the digits
  of a number is made for safe integers only. A promise is its outcome: a rejection or a \<^verbatim>\<open>throw\<close> is the
  left summand of a result, what an \<^verbatim>\<open>await\<close> yields the right one.
\<close>

subsection \<open>Scalars and their string form\<close>

datatype jsvalue = Str string | Num int

definition digit_char :: "nat \<Rightarrow> char" where
  "digit_char d = ''0123456789'' ! d"

fun decimal :: "nat \<Rightarrow> string" where
  "decimal n = (if n < 10 then [digit_char n] else decimal (n div 10) @ [digit_char (n mod 10)])"

declare decimal.simps [simp del]

text \<open>\<^verbatim>\<open>Number.isSafeInteger\<close>, and \<^verbatim>\<open>ToString\<close> of a number, which is exact on safe integers.\<close>

definition isSafeInteger :: "int \<Rightarrow> bool" where
  "isSafeInteger n = (\<bar>n\<bar> \<le> 9007199254740991)"

definition Number_toString :: "int \<Rightarrow> string" where
  "Number_toString i = (if i < 0 then CHR ''-'' # decimal (nat (- i)) else decimal (nat i))"

text \<open>\<^verbatim>\<open>String(value)\<close> and the substitution \<^verbatim>\<open>${value}\<close> of a template literal.\<close>

fun String_of :: "jsvalue \<Rightarrow> string" where
  "String_of (Str s) = s"
| "String_of (Num n) = Number_toString n"

text \<open>The substitution \<^verbatim>\<open>${params[key]}\<close>: a missing property reads as \<^verbatim>\<open>undefined\<close>.\<close>

fun template_of :: "jsvalue option \<Rightarrow> string" where
  "template_of None = ''undefined''"
| "template_of (Some v) = String_of v"

subsection \<open>Objects\<close>

text \<open>
  An object \<^verbatim>\<open>Record<string, string | number>\<close> is the list of its own properties in
  creation order; a well-formed object has no name twice. Assigning to an existing name
  keeps its place, assigning to a new name appends it.
\<close>

type_synonym 'v obj = "(string \<times> 'v) list"

definition wf_obj :: "'v obj \<Rightarrow> bool" where
  "wf_obj ob = distinct (map fst ob)"

fun obj_set :: "string \<Rightarrow> 'v \<Rightarrow> 'v obj \<Rightarrow> 'v obj" where
  "obj_set k v [] = [(k, v)]"
| "obj_set k v ((k', v') # ob) = (if k = k' then (k, v) # ob else (k', v') # obj_set k v ob)"

definition obj_get :: "'v obj \<Rightarrow> string \<Rightarrow> 'v option" where
  "obj_get ob k = map_of ob k"

text \<open>
  Property enumeration (\<^verbatim>\<open>Object.keys\<close>, \<^verbatim>\<open>Object.entries\<close>, spread): the names that
  are array indices (canonical decimal numerals below \<open>2^32 - 1\<close>) come first, in
  ascending numeric order, then the other names in creation order.
\<close>

definition isDigit :: "char \<Rightarrow> bool" where
  "isDigit c = (CHR ''0'' \<le> c \<and> c \<le> CHR ''9'')"

definition digitsValue :: "string \<Rightarrow> nat" where
  "digitsValue s = foldl (\<lambda>n c. 10 * n + (of_char c - 48)) 0 s"

definition isArrayIndex :: "string \<Rightarrow> bool" where
  "isArrayIndex s = (s \<noteq> [] \<and> list_all isDigit s \<and> (s = ''0'' \<or> hd s \<noteq> CHR ''0'')
      \<and> digitsValue s < 4294967295)"

definition Object_entries :: "'v obj \<Rightarrow> (string \<times> 'v) list" where
  "Object_entries ob =
     sort_key (\<lambda>e. digitsValue (fst e)) (filter (\<lambda>e. isArrayIndex (fst e)) ob)
     @ filter (\<lambda>e. \<not> isArrayIndex (fst e)) ob"

definition Object_keys :: "'v obj \<Rightarrow> string list" where
  "Object_keys ob = map fst (Object_entries ob)"

text \<open>The spread \<^verbatim>\<open>{...src}\<close> into an object under construction.\<close>

definition spread :: "'v obj \<Rightarrow> 'v obj \<Rightarrow> 'v obj" where
  "spread target src = fold (\<lambda>e. obj_set (fst e) (snd e)) (Object_entries src) target"

subsection \<open>Comparators\<close>

text \<open>
  \<^verbatim>\<open>Array.prototype.sort(compareFn)\<close> is a stable sort: an element stays before a
  later one unless \<^verbatim>\<open>compareFn\<close> puts it after (a positive result). For a comparator
  that orders the elements consistently the result is the one of every stable sort; the
  insertion sort below is taken as the sort in the other case too.
\<close>

fun insert_by :: "('a \<Rightarrow> 'a \<Rightarrow> int) \<Rightarrow> 'a \<Rightarrow> 'a list \<Rightarrow> 'a list" where
  "insert_by cmp x [] = [x]"
| "insert_by cmp x (y # ys) = (if cmp x y \<le> 0 then x # y # ys else y # insert_by cmp x ys)"

definition sort_by :: "('a \<Rightarrow> 'a \<Rightarrow> int) \<Rightarrow> 'a list \<Rightarrow> 'a list" where
  "sort_by cmp xs = foldr (insert_by cmp) xs []"

text \<open>
  \<^verbatim>\<open>String.prototype.localeCompare\<close> belongs to the host. For the concrete runs below it is
  given on names of ASCII letters and digits the way the root collation of the Unicode
  Collation Algorithm ranks them: first by letters without regard to case (digits before
  letters), and only between names equal up to case by case, lower case first. Another
  character ranks before the digits, as in the collation; among themselves such characters
  are ranked by code unit, which is not the collation's order, and no statement below
  rests on the comparison of two of them.
\<close>

definition isUpper :: "char \<Rightarrow> bool" where
  "isUpper c = (CHR ''A'' \<le> c \<and> c \<le> CHR ''Z'')"

definition isLower :: "char \<Rightarrow> bool" where
  "isLower c = (CHR ''a'' \<le> c \<and> c \<le> CHR ''z'')"

definition primary_weight :: "char \<Rightarrow> nat" where
  "primary_weight c =
     (if isLower c then 1000 + (of_char c - 97)
      else if isUpper c then 1000 + (of_char c - 65)
      else if isDigit c then 500 + (of_char c - 48)
      else of_char c)"

definition case_weight :: "char \<Rightarrow> nat" where
  "case_weight c = (if isUpper c then 1 else 0)"

fun compare_weights :: "nat list \<Rightarrow> nat list \<Rightarrow> int" where
  "compare_weights [] [] = 0"
| "compare_weights [] (y # ys) = - 1"
| "compare_weights (x # xs) [] = 1"
| "compare_weights (x # xs) (y # ys) =
     (if x < y then - 1 else if y < x then 1 else compare_weights xs ys)"

definition localeCompare_ascii :: "string \<Rightarrow> string \<Rightarrow> int" where
  "localeCompare_ascii a b =
     (let p = compare_weights (map primary_weight a) (map primary_weight b)
      in if p \<noteq> 0 then p else compare_weights (map case_weight a) (map case_weight b))"

subsection \<open>JSON values, thrown values\<close>

text \<open>
  The value \<^verbatim>\<open>response.json()\<close> resolves to. A JSON number is an integer of the model;
  an object is the list of its properties, each name once.
\<close>

datatype json = JNull | JBool bool | JNum int | JStr string | JArr "json list"
  | JObj "(string \<times> json) list"

text \<open>
  What a \<^verbatim>\<open>throw\<close> or a rejected promise carries: a \<^verbatim>\<open>FlowApiError\<close> with its message
  and code, another instance of \<^verbatim>\<open>Error\<close> with its message, or a value that is no
  \<^verbatim>\<open>Error\<close>.
\<close>

datatype thrown = FlowApiError string json | Error string | NotAnError

fun truthy :: "json \<Rightarrow> bool" where
  "truthy JNull = False"
| "truthy (JBool b) = b"
| "truthy (JNum n) = (n \<noteq> 0)"
| "truthy (JStr s) = (s \<noteq> [])"
| "truthy (JArr xs) = True"
| "truthy (JObj ob) = True"

text \<open>\<^verbatim>\<open>a || b\<close>, where \<^verbatim>\<open>a\<close> may be \<^verbatim>\<open>undefined\<close> (\<open>None\<close>).\<close>

fun or_else :: "json option \<Rightarrow> json \<Rightarrow> json" where
  "or_else None b = b"
| "or_else (Some a) b = (if truthy a then a else b)"

text \<open>
  Reading the property \<^verbatim>\<open>message\<close> or \<^verbatim>\<open>code\<close> of a parsed value: \<^verbatim>\<open>null\<close> has no
  properties and the read throws a \<^verbatim>\<open>TypeError\<close>; an object yields its own property or
  \<^verbatim>\<open>undefined\<close>; every other value yields \<^verbatim>\<open>undefined\<close>.
\<close>

definition TypeError_null :: "string \<Rightarrow> thrown" where
  "TypeError_null name =
     Error (''Cannot read properties of null (reading '' @ [CHR 0x27] @ name @ [CHR 0x27] @ '')'')"

fun getProp :: "json \<Rightarrow> string \<Rightarrow> thrown + json option" where
  "getProp JNull name = Inl (TypeError_null name)"
| "getProp (JObj ob) name = Inr (map_of ob name)"
| "getProp v name = Inr None"

text \<open>
  \<^verbatim>\<open>ToString\<close>, which the constructor of \<^verbatim>\<open>Error\<close> applies to its message: \<open>None\<close> is the
  \<^verbatim>\<open>TypeError\<close> of an object that cannot be converted (its own \<^verbatim>\<open>toString\<close> property,
  being parsed JSON, is not callable).
\<close>

fun ToString :: "json \<Rightarrow> string option" and join_elements :: "json list \<Rightarrow> string option" where
  "ToString JNull = Some ''null''"
| "ToString (JBool b) = Some (if b then ''true'' else ''false'')"
| "ToString (JNum n) = Some (Number_toString n)"
| "ToString (JStr s) = Some s"
| "ToString (JArr xs) = join_elements xs"
| "ToString (JObj ob) =
     (if ''toString'' \<in> set (map fst ob) then None else Some ''[object Object]'')"
| "join_elements [] = Some []"
| "join_elements (x # xs) =
     (case (if x = JNull then Some [] else ToString x) of
        None \<Rightarrow> None
      | Some s \<Rightarrow>
          (case join_elements xs of
             None \<Rightarrow> None
           | Some r \<Rightarrow> Some (if xs = [] then s else s @ '','' @ r)))"

definition TypeError_primitive :: thrown where
  "TypeError_primitive = Error ''Cannot convert object to primitive value''"

text \<open>
  \<^verbatim>\<open>new FlowApiError(message, code)\<close>: \<^verbatim>\<open>super(message)\<close> stores the string form of the
  message, the code is stored as it is.
\<close>

definition new_FlowApiError :: "json \<Rightarrow> json \<Rightarrow> thrown" where
  "new_FlowApiError message code =
     (case ToString message of None \<Rightarrow> TypeError_primitive | Some m \<Rightarrow> FlowApiError m code)"

subsection \<open>Requests, responses and the host\<close>

datatype http_method = GET | POST

record request =
  req_method :: http_method
  req_url :: string
  req_headers :: "(string \<times> string) list"
  req_body :: "string option"

text \<open>
  A response: its status and what \<^verbatim>\<open>response.json()\<close> does, rejecting with an error of
  some message (\<open>Inl\<close>, a body that is not JSON) or resolving to the parsed value.
\<close>

record response =
  status :: nat
  json_body :: "string + json"

definition ok :: "response \<Rightarrow> bool" where
  "ok r = (200 \<le> status r \<and> status r \<le> 299)"

record FlowConfig =
  apiKey :: string
  secretKey :: string
  baseUrl :: string

text \<open>
  What the client takes from its platform: \<^verbatim>\<open>CryptoJS.HmacSHA256(message, key)\<close> rendered
  with \<^verbatim>\<open>CryptoJS.enc.Hex\<close>, \<^verbatim>\<open>String.prototype.localeCompare\<close>, the serialisation
  \<^verbatim>\<open>new URLSearchParams(entries).toString()\<close>, and \<^verbatim>\<open>fetch\<close>, which rejects (\<open>Inl\<close>) or
  resolves to a response.
\<close>

record host =
  HmacSHA256_hex :: "string \<Rightarrow> string \<Rightarrow> string"
  localeCompare :: "string \<Rightarrow> string \<Rightarrow> int"
  URLSearchParams_toString :: "(string \<times> string) list \<Rightarrow> string"
  fetch :: "request \<Rightarrow> thrown + response"

subsection \<open>FlowClient.sign\<close>

text \<open>
  Lines 47 to 72 of \<^verbatim>\<open>client.ts\<close>: \<^verbatim>\<open>sortedKeys\<close>, \<^verbatim>\<open>toSign\<close> and the signature. The
  diagnostic \<^verbatim>\<open>console.log\<close> calls do not take part in any result and are left out, here
  and in \<^verbatim>\<open>makeRequest\<close>.
\<close>

definition sortedKeys :: "jsvalue obj \<Rightarrow> string list" where
  "sortedKeys params = sort (Object_keys params)"

definition toSign :: "jsvalue obj \<Rightarrow> string" where
  "toSign params = concat (map (\<lambda>key. key @ template_of (obj_get params key)) (sortedKeys params))"

definition sign :: "host \<Rightarrow> FlowConfig \<Rightarrow> jsvalue obj \<Rightarrow> string" where
  "sign h config params = HmacSHA256_hex h (toSign params) (secretKey config)"

subsection \<open>FlowClient.makeRequest\<close>

text \<open>
  Lines 82 to 167 of \<^verbatim>\<open>client.ts\<close>. The object \<^verbatim>\<open>{apiKey: ..., ...params}\<close> creates
  \<^verbatim>\<open>apiKey\<close> first and then copies the properties of \<^verbatim>\<open>params\<close>;
  \<^verbatim>\<open>{...paramsWithApiKey, s: signature}\<close> copies and then assigns \<^verbatim>\<open>s\<close>. The entries
  handed to \<^verbatim>\<open>URLSearchParams\<close> are built the same way for both verbs; a \<^verbatim>\<open>GET\<close> puts
  their serialisation into the URL, a \<^verbatim>\<open>POST\<close> into the body.
\<close>

definition paramsWithApiKey :: "FlowConfig \<Rightarrow> jsvalue obj \<Rightarrow> jsvalue obj" where
  "paramsWithApiKey config params = spread [(''apiKey'', Str (apiKey config))] params"

definition signedParams :: "host \<Rightarrow> FlowConfig \<Rightarrow> jsvalue obj \<Rightarrow> jsvalue obj" where
  "signedParams h config params =
     (let signature = sign h config (paramsWithApiKey config params)
      in obj_set ''s'' (Str signature) (spread [] (paramsWithApiKey config params)))"

definition sortedEntries :: "host \<Rightarrow> jsvalue obj \<Rightarrow> (string \<times> string) list" where
  "sortedEntries h signed =
     map (\<lambda>e. (fst e, String_of (snd e)))
       (sort_by (\<lambda>a b. localeCompare h (fst a) (fst b)) (Object_entries signed))"

definition build_request :: "host \<Rightarrow> FlowConfig \<Rightarrow> string \<Rightarrow> http_method \<Rightarrow> jsvalue obj \<Rightarrow> request" where
  "build_request h config endpoint method params =
     (let entries = sortedEntries h (signedParams h config params);
          url = baseUrl config @ endpoint
      in if method = GET
         then \<lparr>req_method = GET,
               req_url = url @ ''?'' @ URLSearchParams_toString h entries,
               req_headers = [(''Content-Type'', ''application/json'')],
               req_body = None\<rparr>
         else \<lparr>req_method = POST,
               req_url = url,
               req_headers = [(''Content-Type'', ''application/x-www-form-urlencoded'')],
               req_body = Some (URLSearchParams_toString h entries)\<rparr>)"

text \<open>The part of the \<^verbatim>\<open>try\<close> block after \<^verbatim>\<open>fetch\<close> has resolved.\<close>

definition handle_response :: "response \<Rightarrow> thrown + json" where
  "handle_response r =
     (if \<not> ok r then
        (let errorData =
               (case json_body r of
                  Inl _ \<Rightarrow> JObj [(''message'', JStr ''Unknown error''), (''code'', JNum (int (status r)))]
                | Inr d \<Rightarrow> d)
         in case getProp errorData ''message'' of
              Inl e \<Rightarrow> Inl e
            | Inr m \<Rightarrow>
                (case getProp errorData ''code'' of
                   Inl e \<Rightarrow> Inl e
                 | Inr c \<Rightarrow>
                     Inl (new_FlowApiError
                            (or_else m (JStr (''HTTP error '' @ decimal (status r))))
                            (or_else c (JNum (int (status r)))))))
      else
        (case json_body r of
           Inl m \<Rightarrow> Inl (Error m)
         | Inr data \<Rightarrow>
             (case getProp data ''code'' of
                Inl e \<Rightarrow> Inl e
              | Inr c \<Rightarrow>
                  if (case c of None \<Rightarrow> False | Some v \<Rightarrow> truthy v) \<and> c \<noteq> Some (JNum 0)
                  then (case getProp data ''message'' of
                          Inl e \<Rightarrow> Inl e
                        | Inr m \<Rightarrow> Inl (new_FlowApiError (or_else m (JStr ''API error'')) (the c)))
                  else Inr data)))"

text \<open>The \<^verbatim>\<open>catch\<close> block: what is thrown instead of the caught value.\<close>

fun catch_block :: "thrown \<Rightarrow> thrown" where
  "catch_block (FlowApiError m c) = FlowApiError m c"
| "catch_block (Error m) = FlowApiError m (JNum 500)"
| "catch_block NotAnError = FlowApiError ''Unknown error occurred'' (JNum 500)"

definition try_block :: "host \<Rightarrow> FlowConfig \<Rightarrow> string \<Rightarrow> http_method \<Rightarrow> jsvalue obj \<Rightarrow> thrown + json" where
  "try_block h config endpoint method params =
     (case fetch h (build_request h config endpoint method params) of
        Inl e \<Rightarrow> Inl e
      | Inr r \<Rightarrow> handle_response r)"

definition makeRequest :: "host \<Rightarrow> FlowConfig \<Rightarrow> string \<Rightarrow> http_method \<Rightarrow> jsvalue obj \<Rightarrow> thrown + json" where
  "makeRequest h config endpoint method params =
     (case try_block h config endpoint method params of
        Inl e \<Rightarrow> Inl (catch_block e)
      | Inr data \<Rightarrow> Inr data)"

subsection \<open>The operations\<close>

text \<open>
  Lines 174 to 263 of \<^verbatim>\<open>client.ts\<close>, with the request interfaces of \<^verbatim>\<open>./types\<close>. For each
  operation the parameter object it builds is a function of its own, the argument of
  \<^const>\<open>makeRequest\<close>.
\<close>

record CustomerCreateRequest =
  name :: string
  email :: string
  externalId :: string

record CustomerRegisterRequest =
  customerId :: string
  url_return :: string

record CustomerRegisterStatusRequest =
  token :: string

record CustomerChargeRequest =
  customerId :: string
  amount :: int
  currency :: string
  subject :: string
  commerceOrder :: "string option"
  email :: "string option"
  urlConfirmation :: "string option"
  urlReturn :: "string option"

definition createCustomer_params :: "CustomerCreateRequest \<Rightarrow> jsvalue obj" where
  "createCustomer_params request =
     [(''name'', Str (CustomerCreateRequest.name request)),
      (''email'', Str (CustomerCreateRequest.email request)),
      (''externalId'', Str (CustomerCreateRequest.externalId request))]"

definition createCustomer :: "host \<Rightarrow> FlowConfig \<Rightarrow> CustomerCreateRequest \<Rightarrow> thrown + json" where
  "createCustomer h config request =
     makeRequest h config ''/customer/create'' POST (createCustomer_params request)"

definition registerCustomer_params :: "CustomerRegisterRequest \<Rightarrow> jsvalue obj" where
  "registerCustomer_params request =
     [(''customerId'', Str (CustomerRegisterRequest.customerId request)),
      (''url_return'', Str (CustomerRegisterRequest.url_return request))]"

definition registerCustomer :: "host \<Rightarrow> FlowConfig \<Rightarrow> CustomerRegisterRequest \<Rightarrow> thrown + json" where
  "registerCustomer h config request =
     makeRequest h config ''/customer/register'' POST (registerCustomer_params request)"

definition getRegisterStatus_params :: "CustomerRegisterStatusRequest \<Rightarrow> jsvalue obj" where
  "getRegisterStatus_params request = [(''token'', Str (token request))]"

definition getRegisterStatus :: "host \<Rightarrow> FlowConfig \<Rightarrow> CustomerRegisterStatusRequest \<Rightarrow> thrown + json" where
  "getRegisterStatus h config request =
     makeRequest h config ''/customer/getRegisterStatus'' GET (getRegisterStatus_params request)"

text \<open>
  \<^verbatim>\<open>if (request.commerceOrder)\<close>: an optional string counts as provided when it is present
  and not empty.
\<close>

fun provided :: "string option \<Rightarrow> bool" where
  "provided None = False"
| "provided (Some v) = (v \<noteq> [])"

definition chargeCustomer_params :: "CustomerChargeRequest \<Rightarrow> jsvalue obj" where
  "chargeCustomer_params request =
     (let params = [(''customerId'', Str (CustomerChargeRequest.customerId request)),
                    (''amount'', Num (amount request)),
                    (''currency'', Str (currency request)),
                    (''subject'', Str (subject request))];
          params = (if provided (commerceOrder request)
                    then obj_set ''commerceOrder'' (Str (the (commerceOrder request))) params
                    else params);
          params = (if provided (CustomerChargeRequest.email request)
                    then obj_set ''email'' (Str (the (CustomerChargeRequest.email request))) params
                    else params);
          params = (if provided (urlConfirmation request)
                    then obj_set ''urlConfirmation'' (Str (the (urlConfirmation request))) params
                    else params);
          params = (if provided (urlReturn request)
                    then obj_set ''urlReturn'' (Str (the (urlReturn request))) params
                    else params)
      in params)"

definition chargeCustomer :: "host \<Rightarrow> FlowConfig \<Rightarrow> CustomerChargeRequest \<Rightarrow> thrown + json" where
  "chargeCustomer h config request =
     makeRequest h config ''/customer/charge'' POST (chargeCustomer_params request)"

subsection \<open>The canonical string of the specification\<close>

text \<open>
  The signer as its contract words it: sort the entries by name, then concatenate each name
  immediately followed by the string form of its value.
\<close>

definition canonical_string :: "jsvalue obj \<Rightarrow> string" where
  "canonical_string params = concat (map (\<lambda>(n, v). n @ String_of v) (sort_key fst params))"

subsection \<open>Observations of a dispatch, and a host to run it on\<close>

text \<open>
  The names in the order of the string to sign, and the names in the order of the entries
  handed to \<^verbatim>\<open>URLSearchParams\<close>.
\<close>

definition signNames :: "FlowConfig \<Rightarrow> jsvalue obj \<Rightarrow> string list" where
  "signNames config params = sortedKeys (paramsWithApiKey config params)"

definition wireNames :: "host \<Rightarrow> FlowConfig \<Rightarrow> jsvalue obj \<Rightarrow> string list" where
  "wireNames h config params = map fst (sortedEntries h (signedParams h config params))"

text \<open>
  The serialisation \<^verbatim>\<open>application/x-www-form-urlencoded\<close> of \<^verbatim>\<open>URLSearchParams\<close>: letters,
  digits and \<^verbatim>\<open>*-._\<close> stand for themselves, a space becomes \<^verbatim>\<open>+\<close>, every other code unit
  becomes the bytes of its UTF-8 encoding, each as \<^verbatim>\<open>%\<close> and two upper-case hexadecimal
  digits; the pairs are joined by \<^verbatim>\<open>&\<close>.
\<close>

definition hex_digit :: "nat \<Rightarrow> char" where
  "hex_digit d = ''0123456789ABCDEF'' ! d"

definition percent_byte :: "nat \<Rightarrow> string" where
  "percent_byte b = [CHR ''%'', hex_digit (b div 16), hex_digit (b mod 16)]"

definition utf8_bytes :: "char \<Rightarrow> nat list" where
  "utf8_bytes c =
     (let n = of_char c in if n < 128 then [n] else [192 + n div 64, 128 + n mod 64])"

definition urlencode_char :: "char \<Rightarrow> string" where
  "urlencode_char c =
     (if isDigit c \<or> isUpper c \<or> isLower c \<or> c \<in> set ''*-._'' then [c]
      else if c = CHR '' '' then ''+''
      else concat (map percent_byte (utf8_bytes c)))"

definition urlencode :: "string \<Rightarrow> string" where
  "urlencode s = concat (map urlencode_char s)"

fun form_urlencoded :: "(string \<times> string) list \<Rightarrow> string" where
  "form_urlencoded [] = []"
| "form_urlencoded [e] = urlencode (fst e) @ ''='' @ urlencode (snd e)"
| "form_urlencoded (e # es) =
     urlencode (fst e) @ ''='' @ urlencode (snd e) @ ''&'' @ form_urlencoded es"

definition symbolic_host :: host where
  "symbolic_host =
     \<lparr>HmacSHA256_hex = (\<lambda>message key. ''HMAC('' @ key @ '','' @ message @ '')''),
      localeCompare = localeCompare_ascii,
      URLSearchParams_toString = form_urlencoded,
      fetch = (\<lambda>req. Inl (Error ''fetch failed''))\<rparr>"

definition example_config :: FlowConfig where
  "example_config = \<lparr>apiKey = ''K'', secretKey = ''S'', baseUrl = ''https://flow.example''\<rparr>"

text \<open>The host whose \<^verbatim>\<open>fetch\<close> resolves to a given response, or rejects with a given value.\<close>

definition responding :: "response \<Rightarrow> host" where
  "responding r = symbolic_host\<lparr>fetch := (\<lambda>req. Inr r)\<rparr>"

definition rejecting :: "thrown \<Rightarrow> host" where
  "rejecting e = symbolic_host\<lparr>fetch := (\<lambda>req. Inl e)\<rparr>"

text \<open>
  The host of a provider that echoes the request: \<^verbatim>\<open>fetch\<close> resolves to a 200 response
  whose body repeats the URL and the body it was called with.
\<close>

definition echo :: "request \<Rightarrow> thrown + response" where
  "echo req =
     Inr \<lparr>status = 200,
          json_body = Inr (JObj [(''url'', JStr (req_url req)),
                                 (''body'', (case req_body req of
                                               None \<Rightarrow> JNull
                                             | Some b \<Rightarrow> JStr b))])\<rparr>"

definition echoing :: host where
  "echoing = symbolic_host\<lparr>fetch := echo\<rparr>"

text \<open>The customer of the end-to-end scenario, and a charge without optional fields.\<close>

definition jane :: CustomerCreateRequest where
  "jane = \<lparr>name = ''Jane Doe'', CustomerCreateRequest.email = ''jane@example.com'',
            externalId = ''u123''\<rparr>"

definition plain_charge :: CustomerChargeRequest where
  "plain_charge = \<lparr>customerId = ''c1'', amount = 15000, currency = ''CLP'', subject = ''Plan'',
                    commerceOrder = None, email = None, urlConfirmation = None,
                    urlReturn = None\<rparr>"

text \<open>
  What the dispatch promises about signing: the API key is merged under \<^verbatim>\<open>apiKey\<close>, the
  signature is the HMAC of the string to sign of the merged set, the name \<^verbatim>\<open>s\<close> is not
  among the signed names, and the entries sent are those of the merged set and the
  signature under \<^verbatim>\<open>s\<close>.
\<close>

definition signed_then_sent :: "host \<Rightarrow> FlowConfig \<Rightarrow> jsvalue obj \<Rightarrow> bool" where
  "signed_then_sent h config params =
     (let merged = paramsWithApiKey config params;
          signature = HmacSHA256_hex h (toSign merged) (secretKey config);
          sent = sortedEntries h (signedParams h config params)
      in set merged = insert (''apiKey'', Str (apiKey config)) (set params)
       \<and> obj_get merged ''apiKey'' = Some (Str (apiKey config))
       \<and> set (signNames config params) = fst ` set merged
       \<and> ''s'' \<notin> set (signNames config params)
       \<and> set sent = insert (''s'', signature) ((\<lambda>e. (fst e, String_of (snd e))) ` set merged)
       \<and> mset (wireNames h config params) = add_mset ''s'' (mset (signNames config params))
       \<and> distinct (wireNames h config params))"

section \<open>Properties\<close>

subsection \<open>Objects and sorting\<close>

lemma mset_Object_entries: "mset (Object_entries ob) = mset ob"
  unfolding Object_entries_def by (simp add: multiset_partition [symmetric])

lemma set_Object_entries: "set (Object_entries ob) = set ob"
  using mset_Object_entries [of ob] by (metis set_mset_mset)

lemma mset_Object_keys: "mset (Object_keys ob) = mset (map fst ob)"
  unfolding Object_keys_def by (simp add: mset_Object_entries)

lemma set_Object_keys: "set (Object_keys ob) = fst ` set ob"
  unfolding Object_keys_def by (simp add: set_Object_entries)

lemma distinct_Object_keys: "wf_obj ob \<Longrightarrow> distinct (Object_keys ob)"
  unfolding wf_obj_def using mset_Object_keys [of ob] by (metis mset_eq_imp_distinct_iff)

lemma wf_Object_entries: "wf_obj ob \<Longrightarrow> wf_obj (Object_entries ob)"
  using distinct_Object_keys [of ob] by (simp add: wf_obj_def Object_keys_def)

lemma sortedKeys_sort: "sortedKeys params = sort (map fst params)"
  unfolding sortedKeys_def
  by (rule properties_for_sort [symmetric]) (simp_all add: mset_Object_keys)

lemma map_of_obj_set: "map_of (obj_set k v ob) = (map_of ob)(k \<mapsto> v)"
  by (induction ob) (auto simp: fun_eq_iff)

lemma keys_obj_set:
  "map fst (obj_set k v ob) = (if k \<in> fst ` set ob then map fst ob else map fst ob @ [k])"
proof (induction ob)
  case Nil
  show ?case by simp
next
  case (Cons e ob)
  obtain k' v' where e: "e = (k', v')" by (cases e)
  show ?case using Cons e by (cases "k = k'") force+
qed

lemma set_keys_obj_set: "fst ` set (obj_set k v ob) = insert k (fst ` set ob)"
proof -
  have "set (map fst (obj_set k v ob)) = insert k (set (map fst ob))"
    unfolding keys_obj_set by auto
  then show ?thesis by simp
qed

lemma wf_obj_set: "wf_obj ob \<Longrightarrow> wf_obj (obj_set k v ob)"
  by (simp add: wf_obj_def keys_obj_set)

lemma fold_obj_set_keys:
  "fst ` set (fold (\<lambda>e. obj_set (fst e) (snd e)) es t) = fst ` set t \<union> fst ` set es"
proof (induction es arbitrary: t)
  case Nil
  show ?case by simp
next
  case (Cons e es)
  have "fst ` set (obj_set (fst e) (snd e) t) = insert (fst e) (fst ` set t)"
    by (rule set_keys_obj_set)
  then show ?case using Cons.IH [of "obj_set (fst e) (snd e) t"] by auto
qed

lemma fold_obj_set_wf:
  "wf_obj t \<Longrightarrow> wf_obj (fold (\<lambda>e. obj_set (fst e) (snd e)) es t)"
  by (induction es arbitrary: t) (simp_all add: wf_obj_set)

lemma fold_obj_set_map_of:
  "distinct (map fst es) \<Longrightarrow>
   map_of (fold (\<lambda>e. obj_set (fst e) (snd e)) es t) = map_of t ++ map_of es"
proof (induction es arbitrary: t)
  case Nil
  show ?case by simp
next
  case (Cons e es)
  obtain k v where e: "e = (k, v)" by (cases e)
  from Cons.prems e have k: "k \<notin> fst ` set es" and d: "distinct (map fst es)" by auto
  have none: "map_of es k = None" using k by (simp add: map_of_eq_None_iff)
  have step: "(map_of t)(k \<mapsto> v) ++ map_of es = map_of t ++ map_of (e # es)"
    using none e by (auto simp: fun_eq_iff map_add_def split: option.splits)
  have "map_of (fold (\<lambda>e. obj_set (fst e) (snd e)) (e # es) t)
        = map_of (obj_set k v t) ++ map_of es"
    using Cons.IH [OF d, of "obj_set k v t"] e by simp
  also have "\<dots> = (map_of t)(k \<mapsto> v) ++ map_of es"
    by (simp only: map_of_obj_set)
  also note step
  finally show ?case .
qed

lemma spread_keys: "fst ` set (spread t src) = fst ` set t \<union> fst ` set src"
  unfolding spread_def by (simp add: fold_obj_set_keys set_Object_entries)

lemma spread_wf: "wf_obj t \<Longrightarrow> wf_obj (spread t src)"
  unfolding spread_def by (rule fold_obj_set_wf)

lemma map_of_Object_entries: "wf_obj ob \<Longrightarrow> map_of (Object_entries ob) = map_of ob"
  using wf_Object_entries [of ob]
  by (simp add: wf_obj_def map_of_inject_set set_Object_entries)

lemma spread_map_of: "wf_obj src \<Longrightarrow> map_of (spread t src) = map_of t ++ map_of src"
  unfolding spread_def
  using fold_obj_set_map_of [of "Object_entries src" t] wf_Object_entries [of src]
  by (simp add: wf_obj_def map_of_Object_entries)

lemma mset_insert_by: "mset (insert_by cmp x ys) = add_mset x (mset ys)"
  by (induction ys) simp_all

lemma mset_sort_by: "mset (sort_by cmp xs) = mset xs"
  unfolding sort_by_def by (induction xs) (simp_all add: mset_insert_by)

lemma set_sort_by: "set (sort_by cmp xs) = set xs"
  using mset_sort_by [of cmp xs] by (metis set_mset_mset)

lemma insert_by_insort_key:
  "\<forall>y\<in>set ys. (cmp x y \<le> 0) = (f x \<le> f y) \<Longrightarrow> insert_by cmp x ys = insort_key f x ys"
  by (induction ys) simp_all

lemma sort_by_sort_key:
  "\<forall>x\<in>set xs. \<forall>y\<in>set xs. (cmp x y \<le> 0) = (f x \<le> f y) \<Longrightarrow> sort_by cmp xs = sort_key f xs"
proof (induction xs)
  case Nil
  show ?case by (simp add: sort_by_def)
next
  case (Cons x xs)
  have ih: "sort_by cmp xs = sort_key f xs" using Cons by simp
  have "insert_by cmp x (sort_key f xs) = insort_key f x (sort_key f xs)"
    by (rule insert_by_insort_key) (use Cons.prems in simp)
  then show ?case using ih by (simp add: sort_by_def)
qed

lemma map_sort_key_sort: "map f (sort_key f xs) = sort (map f xs)"
  by (rule properties_for_sort [symmetric]) (simp_all add: sorted_sort_key)

lemma obj_get_entry: "wf_obj ob \<Longrightarrow> (k, v) \<in> set ob \<Longrightarrow> obj_get ob k = Some v"
  by (simp add: wf_obj_def obj_get_def)

lemma toSign_canonical: 
  assumes "wf_obj params" shows "toSign params = canonical_string params"
proof -
  have "map (\<lambda>(n, v). n @ String_of v) (sort_key fst params)
        = map (\<lambda>key. key @ template_of (obj_get params key)) (map fst (sort_key fst params))"
    using assms by (auto simp: obj_get_entry)
  then show ?thesis
    by (simp add: toSign_def canonical_string_def sortedKeys_sort map_sort_key_sort)
qed

lemma canonical_string_mset:
  assumes "wf_obj params" "mset params' = mset params"
  shows "canonical_string params' = canonical_string params"
proof -
  have "distinct (map fst params')"
    using assms by (metis wf_obj_def mset_eq_imp_distinct_iff mset_map)
  then have "inj_on fst (set params')" by (simp add: distinct_map)
  then have "sort_key fst params' = sort_key fst params"
    using assms(2) by (rule sort_key_eq_sort_key [rotated])
  then show ?thesis by (simp add: canonical_string_def)
qed

lemma wf_obj_mset: "wf_obj params \<Longrightarrow> mset params' = mset params \<Longrightarrow> wf_obj params'"
  by (metis wf_obj_def mset_eq_imp_distinct_iff mset_map)

lemma sortedKeys_strict: "wf_obj params \<Longrightarrow> sorted_wrt (<) (sortedKeys params)"
  by (simp add: sortedKeys_sort strict_sorted_iff wf_obj_def)

subsection \<open>The merged and the signed parameter set\<close>

lemma paramsWithApiKey_wf: "wf_obj (paramsWithApiKey config params)"
  unfolding paramsWithApiKey_def by (rule spread_wf) (simp add: wf_obj_def)

lemma paramsWithApiKey_keys:
  "fst ` set (paramsWithApiKey config params) = insert ''apiKey'' (fst ` set params)"
  unfolding paramsWithApiKey_def by (simp add: spread_keys)

lemma paramsWithApiKey_get:
  "wf_obj params \<Longrightarrow> obj_get (paramsWithApiKey config params) k =
     (case obj_get params k of
        Some v \<Rightarrow> Some v
      | None \<Rightarrow> if k = ''apiKey'' then Some (Str (apiKey config)) else None)"
  unfolding paramsWithApiKey_def obj_get_def
  by (simp add: spread_map_of map_add_def split: option.splits)

lemma signedParams_wf: "wf_obj (signedParams h config params)"
  unfolding signedParams_def Let_def
  by (intro wf_obj_set spread_wf) (simp add: wf_obj_def)

lemma signedParams_keys:
  "fst ` set (signedParams h config params) = insert ''s'' (insert ''apiKey'' (fst ` set params))"
  unfolding signedParams_def Let_def
  by (simp add: set_keys_obj_set spread_keys paramsWithApiKey_keys)

lemma signedParams_get:
  "obj_get (signedParams h config params) k =
     (if k = ''s'' then Some (Str (sign h config (paramsWithApiKey config params)))
      else obj_get (paramsWithApiKey config params) k)"
  unfolding signedParams_def Let_def obj_get_def
  by (simp add: map_of_obj_set spread_map_of paramsWithApiKey_wf)

lemma signedParams_names_mset:
  assumes "''s'' \<notin> fst ` set params"
  shows "mset (map fst (signedParams h config params))
         = add_mset ''s'' (mset (map fst (paramsWithApiKey config params)))"
proof -
  let ?m = "paramsWithApiKey config params"
  have d1: "distinct (map fst (spread [] ?m))"
    using spread_wf [of "[]" ?m] by (simp add: wf_obj_def)
  have d2: "distinct (map fst ?m)"
    using paramsWithApiKey_wf [of config params] by (simp add: wf_obj_def)
  have "set (map fst (spread [] ?m)) = set (map fst ?m)"
    by (simp add: spread_keys)
  then have eq: "mset (map fst (spread [] ?m)) = mset (map fst ?m)"
    using d1 d2 by (rule iffD1 [OF set_eq_iff_mset_eq_distinct, rotated 2])
  have "''s'' \<notin> fst ` set (spread [] ?m)"
    using assms by (simp add: spread_keys paramsWithApiKey_keys)
  then have "map fst (signedParams h config params) = map fst (spread [] ?m) @ [''s'']"
    unfolding signedParams_def Let_def by (simp add: keys_obj_set)
  then show ?thesis using eq by simp
qed

lemma wireNames_mset:
  "mset (wireNames h config params) = mset (map fst (signedParams h config params))"
  unfolding wireNames_def sortedEntries_def
  by (simp add: comp_def mset_sort_by mset_Object_entries)

lemma sortedEntries_set:
  "set (sortedEntries h signed) = (\<lambda>e. (fst e, String_of (snd e))) ` set signed"
  unfolding sortedEntries_def by (simp add: set_sort_by set_Object_entries)

lemma wireNames_sorted:
  assumes agree: "\<forall>a\<in>fst ` set signed. \<forall>b\<in>fst ` set signed. (localeCompare h a b \<le> 0) = (a \<le> b)"
  shows "map fst (sortedEntries h signed) = sort (map fst signed)"
proof -
  have "sort_by (\<lambda>a b. localeCompare h (fst a) (fst b)) (Object_entries signed)
        = sort_key fst (Object_entries signed)"
    by (rule sort_by_sort_key) (use agree in \<open>simp add: set_Object_entries\<close>)
  then have "map fst (sortedEntries h signed) = sort (map fst (Object_entries signed))"
    unfolding sortedEntries_def by (simp add: comp_def map_sort_key_sort)
  also have "\<dots> = sort (map fst signed)"
    by (rule properties_for_sort) (simp_all add: mset_Object_entries)
  finally show ?thesis .
qed

lemma sort_cong_mset: "mset xs = mset ys \<Longrightarrow> sort xs = sort ys"
  by (rule properties_for_sort) simp_all

lemma removeAll_s: "removeAll ''s'' xs = filter (\<lambda>n. n \<noteq> ''s'') xs"
  by (induction xs) auto

lemma names_without_s:
  assumes "''s'' \<notin> fst ` set params"
    and "\<forall>a\<in>insert ''s'' (insert ''apiKey'' (fst ` set params)).
         \<forall>b\<in>insert ''s'' (insert ''apiKey'' (fst ` set params)).
           (localeCompare h a b \<le> 0) = (a \<le> b)"
  shows "removeAll ''s'' (wireNames h config params) = signNames config params"
proof -
  let ?m = "paramsWithApiKey config params"
  let ?sp = "signedParams h config params"
  have w: "wireNames h config params = sort (map fst ?sp)"
    unfolding wireNames_def
    by (rule wireNames_sorted) (use assms(2) in \<open>simp add: signedParams_keys\<close>)
  have "''s'' \<notin> set (map fst ?m)"
    using assms(1) by (simp add: paramsWithApiKey_keys)
  then have "filter (\<lambda>n. n \<noteq> ''s'') (map fst ?m) = map fst ?m"
    by (subst filter_id_conv) blast
  then have "mset (filter (\<lambda>n. n \<noteq> ''s'') (map fst ?m)) = mset (map fst ?m)"
    by (simp only:)
  moreover have "mset (filter (\<lambda>n. n \<noteq> ''s'') (map fst ?sp))
        = filter_mset (\<lambda>n. n \<noteq> ''s'') (add_mset ''s'' (mset (map fst ?m)))"
    by (simp only: mset_filter signedParams_names_mset [OF assms(1)])
  moreover have "filter_mset (\<lambda>n. n \<noteq> ''s'') (add_mset ''s'' (mset (map fst ?m)))
        = mset (filter (\<lambda>n. n \<noteq> ''s'') (map fst ?m))"
    by (simp only: mset_filter filter_mset_add_mset) simp
  ultimately have "mset (filter (\<lambda>n. n \<noteq> ''s'') (map fst ?sp)) = mset (map fst ?m)"
    by (simp only:)
  then have "sort (filter (\<lambda>n. n \<noteq> ''s'') (map fst ?sp)) = sort (map fst ?m)"
    by (rule sort_cong_mset)
  then show ?thesis
    unfolding removeAll_s by (simp add: w filter_sort signNames_def sortedKeys_sort)
qed

subsection \<open>Evaluation on concrete names, and the operations\<close>

lemma not_index_Cons: "\<not> isDigit c \<Longrightarrow> \<not> isArrayIndex (c # cs)"
  by (simp add: isArrayIndex_def)

lemma Object_entries_plain: "\<forall>e\<in>set ob. \<not> isArrayIndex (fst e) \<Longrightarrow> Object_entries ob = ob"
  unfolding Object_entries_def by (simp add: filter_id_conv)

lemmas collate = localeCompare_ascii_def primary_weight_def case_weight_def isLower_def isUpper_def
  isDigit_def Let_def

lemma set_of_wf:
  assumes "wf_obj xs" "wf_obj ys" "map_of xs = map_of ys"
  shows "set xs = set ys"
  using assms by (simp add: wf_obj_def map_of_inject_set)

lemma paramsWithApiKey_set:
  assumes "wf_obj params" "''apiKey'' \<notin> fst ` set params"
  shows "set (paramsWithApiKey config params) = insert (''apiKey'', Str (apiKey config)) (set params)"
proof -
  have wf: "wf_obj ((''apiKey'', Str (apiKey config)) # params)"
    using assms by (simp add: wf_obj_def)
  have "map_of params ''apiKey'' = None"
    using assms(2) by (simp add: map_of_eq_None_iff)
  then have "map_of (paramsWithApiKey config params) = map_of ((''apiKey'', Str (apiKey config)) # params)"
    unfolding paramsWithApiKey_def
    by (auto simp: spread_map_of [OF assms(1)] map_add_def fun_eq_iff split: option.splits)
  from set_of_wf [OF paramsWithApiKey_wf wf this] show ?thesis by simp
qed

lemma signedParams_set:
  assumes "''s'' \<notin> fst ` set params"
  shows "set (signedParams h config params)
         = insert (''s'', Str (sign h config (paramsWithApiKey config params)))
             (set (paramsWithApiKey config params))"
proof -
  let ?m = "paramsWithApiKey config params"
  let ?e = "(''s'', Str (sign h config ?m))"
  have "''s'' \<notin> fst ` set ?m" using assms by (simp add: paramsWithApiKey_keys)
  then have wf: "wf_obj (?e # ?m)"
    using paramsWithApiKey_wf [of config params] by (simp add: wf_obj_def)
  have "map_of (signedParams h config params) = map_of (?e # ?m)"
    unfolding signedParams_def Let_def
    by (simp add: map_of_obj_set spread_map_of paramsWithApiKey_wf)
  from set_of_wf [OF signedParams_wf wf this] show ?thesis by simp
qed

lemma signed_then_sent_general:
  assumes wf: "wf_obj params" and s: "''s'' \<notin> fst ` set params"
    and k: "''apiKey'' \<notin> fst ` set params"
  shows "signed_then_sent h config params"
proof -
  let ?m = "paramsWithApiKey config params"
  have a: "set ?m = insert (''apiKey'', Str (apiKey config)) (set params)"
    by (rule paramsWithApiKey_set [OF wf k])
  have "obj_get params ''apiKey'' = None"
    using k by (simp add: obj_get_def map_of_eq_None_iff)
  then have b: "obj_get ?m ''apiKey'' = Some (Str (apiKey config))"
    by (simp add: paramsWithApiKey_get [OF wf])
  have c: "set (signNames config params) = fst ` set ?m"
    by (simp add: signNames_def sortedKeys_sort)
  have d: "''s'' \<notin> set (signNames config params)"
    using s by (simp add: c paramsWithApiKey_keys)
  have e: "set (sortedEntries h (signedParams h config params))
           = insert (''s'', HmacSHA256_hex h (toSign ?m) (secretKey config))
               ((\<lambda>e. (fst e, String_of (snd e))) ` set ?m)"
    by (simp add: sortedEntries_set signedParams_set [OF s] sign_def)
  have f: "mset (wireNames h config params) = add_mset ''s'' (mset (signNames config params))"
    using wireNames_mset [of h config params] signedParams_names_mset [OF s, of h config]
      mset_sort [of "\<lambda>x. x" "map fst ?m"]
    by (simp only: signNames_def sortedKeys_sort)
  have "distinct (map fst (signedParams h config params))"
    using signedParams_wf [of h config params] by (simp add: wf_obj_def)
  then have g: "distinct (wireNames h config params)"
    using wireNames_mset [of h config params] by (metis mset_eq_imp_distinct_iff)
  show ?thesis
    unfolding signed_then_sent_def Let_def using a b c d e f g by (simp only: simp_thms)
qed

lemma chargeCustomer_wf: "wf_obj (chargeCustomer_params r)"
  by (simp add: chargeCustomer_params_def Let_def wf_obj_set) (simp add: wf_obj_def)

lemma chargeCustomer_keys:
  "fst ` set (chargeCustomer_params r) =
     {''customerId'', ''amount'', ''currency'', ''subject''}
     \<union> (if provided (commerceOrder r) then {''commerceOrder''} else {})
     \<union> (if provided (CustomerChargeRequest.email r) then {''email''} else {})
     \<union> (if provided (urlConfirmation r) then {''urlConfirmation''} else {})
     \<union> (if provided (urlReturn r) then {''urlReturn''} else {})"
  by (auto simp: chargeCustomer_params_def Let_def set_keys_obj_set)

lemmas run_objects = paramsWithApiKey_def signedParams_def spread_def Object_entries_plain
  not_index_Cons isDigit_def Let_def

lemma agree_create:
  "\<forall>a\<in>{''s'', ''apiKey'', ''name'', ''email'', ''externalId''}.
   \<forall>b\<in>{''s'', ''apiKey'', ''name'', ''email'', ''externalId''}.
     (localeCompare_ascii a b \<le> 0) = (a \<le> b)"
  by (simp add: collate)

lemma agree_register:
  "\<forall>a\<in>{''s'', ''apiKey'', ''customerId'', ''url_return''}.
   \<forall>b\<in>{''s'', ''apiKey'', ''customerId'', ''url_return''}.
     (localeCompare_ascii a b \<le> 0) = (a \<le> b)"
  by (simp add: collate)

lemma agree_status:
  "\<forall>a\<in>{''s'', ''apiKey'', ''token''}.
   \<forall>b\<in>{''s'', ''apiKey'', ''token''}.
     (localeCompare_ascii a b \<le> 0) = (a \<le> b)"
  by (simp add: collate)

lemma agree_charge:
  "\<forall>a\<in>{''s'', ''apiKey'', ''customerId'', ''amount'', ''currency'', ''subject'',
          ''commerceOrder'', ''email'', ''urlConfirmation'', ''urlReturn''}.
   \<forall>b\<in>{''s'', ''apiKey'', ''customerId'', ''amount'', ''currency'', ''subject'',
          ''commerceOrder'', ''email'', ''urlConfirmation'', ''urlReturn''}.
     (localeCompare_ascii a b \<le> 0) = (a \<le> b)"
  by (simp add: collate)

lemma agree_subset:
  "\<forall>a\<in>A. \<forall>b\<in>A. P a b \<Longrightarrow> B \<subseteq> A \<Longrightarrow> \<forall>a\<in>B. \<forall>b\<in>B. P a b"
  by blast

lemma names_create:
  "removeAll ''s'' (wireNames (h\<lparr>localeCompare := localeCompare_ascii\<rparr>) config (createCustomer_params r))
   = signNames config (createCustomer_params r)"
  by (rule names_without_s)
     (use agree_create in \<open>simp_all add: createCustomer_params_def insert_commute\<close>)

lemma names_register:
  "removeAll ''s'' (wireNames (h\<lparr>localeCompare := localeCompare_ascii\<rparr>) config (registerCustomer_params r))
   = signNames config (registerCustomer_params r)"
  by (rule names_without_s)
     (use agree_register in \<open>simp_all add: registerCustomer_params_def insert_commute\<close>)

lemma names_status:
  "removeAll ''s'' (wireNames (h\<lparr>localeCompare := localeCompare_ascii\<rparr>) config (getRegisterStatus_params r))
   = signNames config (getRegisterStatus_params r)"
  by (rule names_without_s)
     (use agree_status in \<open>simp_all add: getRegisterStatus_params_def insert_commute\<close>)

lemma names_charge:
  "removeAll ''s'' (wireNames (h\<lparr>localeCompare := localeCompare_ascii\<rparr>) config (chargeCustomer_params r))
   = signNames config (chargeCustomer_params r)"
proof (rule names_without_s)
  show "''s'' \<notin> fst ` set (chargeCustomer_params r)"
    by (simp add: chargeCustomer_keys)
  have "insert ''s'' (insert ''apiKey'' (fst ` set (chargeCustomer_params r)))
        \<subseteq> {''s'', ''apiKey'', ''customerId'', ''amount'', ''currency'', ''subject'',
          ''commerceOrder'', ''email'', ''urlConfirmation'', ''urlReturn''}"
    by (simp add: chargeCustomer_keys)
  from agree_subset [OF agree_charge this]
  show "\<forall>a\<in>insert ''s'' (insert ''apiKey'' (fst ` set (chargeCustomer_params r))).
        \<forall>b\<in>insert ''s'' (insert ''apiKey'' (fst ` set (chargeCustomer_params r))).
          (localeCompare (h\<lparr>localeCompare := localeCompare_ascii\<rparr>) a b \<le> 0) = (a \<le> b)"
    by simp
qed

lemma wireNames_set:
  "set (wireNames h config params) = insert ''s'' (insert ''apiKey'' (fst ` set params))"
proof -
  have "set (wireNames h config params) = set (map fst (signedParams h config params))"
    using wireNames_mset [of h config params] by (rule mset_eq_setD)
  then show ?thesis by (simp add: signedParams_keys)
qed

lemma wireNames_distinct: "distinct (wireNames h config params)"
proof -
  have "distinct (map fst (signedParams h config params))"
    using signedParams_wf [of h config params] by (simp add: wf_obj_def)
  then show ?thesis
    using wireNames_mset [of h config params] by (metis mset_eq_imp_distinct_iff)
qed

lemma sent_entries:
  assumes "wf_obj params" "''s'' \<notin> fst ` set params" "''apiKey'' \<notin> fst ` set params"
  shows "set (sortedEntries h (signedParams h config params))
         = insert (''s'', sign h config (paramsWithApiKey config params))
             (insert (''apiKey'', apiKey config)
                ((\<lambda>e. (fst e, String_of (snd e))) ` set params))"
  by (simp add: sortedEntries_set signedParams_set [OF assms(2)]
        paramsWithApiKey_set [OF assms(1) assms(3)])

lemma build_request_POST:
  "build_request h config endpoint POST params =
     \<lparr>req_method = POST, req_url = baseUrl config @ endpoint,
      req_headers = [(''Content-Type'', ''application/x-www-form-urlencoded'')],
      req_body = Some (URLSearchParams_toString h (sortedEntries h (signedParams h config params)))\<rparr>"
  by (simp add: build_request_def Let_def)

lemma providedD: "provided x \<Longrightarrow> \<exists>v. x = Some v \<and> v \<noteq> []"
  by (cases x) simp_all

lemma chargeCustomer_list:
  "chargeCustomer_params r =
     [(''customerId'', Str (CustomerChargeRequest.customerId r)), (''amount'', Num (amount r)),
      (''currency'', Str (currency r)), (''subject'', Str (subject r))]
     @ (if provided (commerceOrder r) then [(''commerceOrder'', Str (the (commerceOrder r)))] else [])
     @ (if provided (CustomerChargeRequest.email r) then [(''email'', Str (the (CustomerChargeRequest.email r)))] else [])
     @ (if provided (urlConfirmation r) then [(''urlConfirmation'', Str (the (urlConfirmation r)))] else [])
     @ (if provided (urlReturn r) then [(''urlReturn'', Str (the (urlReturn r)))] else [])"
  by (simp add: chargeCustomer_params_def Let_def)

lemma merged_jane:
  "paramsWithApiKey config (createCustomer_params jane) =
     [(''apiKey'', Str (apiKey config)), (''name'', Str ''Jane Doe''),
      (''email'', Str ''jane@example.com''), (''externalId'', Str ''u123'')]"
  by (simp add: run_objects createCustomer_params_def jane_def)

lemma toSign_jane:
  "toSign (paramsWithApiKey config (createCustomer_params jane))
   = ''apiKey'' @ apiKey config @ ''emailjane@example.comexternalIdu123nameJane Doe''"
  by (simp add: merged_jane toSign_def sortedKeys_sort obj_get_def)

subsection \<open>Responses\<close>

lemma makeRequest_response:
  "fetch h (build_request h config endpoint method params) = Inr r \<Longrightarrow>
   makeRequest h config endpoint method params =
     (case handle_response r of Inl e \<Rightarrow> Inl (catch_block e) | Inr data \<Rightarrow> Inr data)"
  by (simp add: makeRequest_def try_block_def)

lemma makeRequest_rejected:
  "fetch h (build_request h config endpoint method params) = Inl e \<Longrightarrow>
   makeRequest h config endpoint method params = Inl (catch_block e)"
  by (simp add: makeRequest_def try_block_def)

lemma new_FlowApiError_string: "new_FlowApiError (JStr s) c = FlowApiError s c"
  by (simp add: new_FlowApiError_def)

lemma handle_ok:
  assumes "ok r" "json_body r = Inr data" "getProp data ''code'' = Inr c"
    "getProp data ''message'' = Inr m"
  shows "handle_response r =
     (if (case c of None \<Rightarrow> False | Some v \<Rightarrow> truthy v)
      then Inl (new_FlowApiError (or_else m (JStr ''API error'')) (the c))
      else Inr data)"
  using assms by (auto simp: handle_response_def split: option.splits)

lemma handle_not_ok_parsed:
  assumes "\<not> ok r" "json_body r = Inr data" "getProp data ''code'' = Inr c"
    "getProp data ''message'' = Inr m"
  shows "handle_response r =
     Inl (new_FlowApiError (or_else m (JStr (''HTTP error '' @ decimal (status r))))
            (or_else c (JNum (int (status r)))))"
  using assms by (simp add: handle_response_def)

lemma handle_not_ok_unparseable:
  assumes "\<not> ok r" "json_body r = Inl e"
  shows "handle_response r = Inl (FlowApiError ''Unknown error'' (JNum (int (status r))))"
  using assms by (simp add: handle_response_def new_FlowApiError_string)

subsection \<open>The request handed to the transport\<close>

lemma makeRequest_dispatch:
  "makeRequest h config endpoint verb params =
     (case fetch h
        (if verb = GET
         then \<lparr>req_method = GET,
               req_url = baseUrl config @ endpoint @ ''?''
                 @ URLSearchParams_toString h (sortedEntries h (signedParams h config params)),
               req_headers = [(''Content-Type'', ''application/json'')],
               req_body = None\<rparr>
         else \<lparr>req_method = POST,
               req_url = baseUrl config @ endpoint,
               req_headers = [(''Content-Type'', ''application/x-www-form-urlencoded'')],
               req_body = Some (URLSearchParams_toString h
                                  (sortedEntries h (signedParams h config params)))\<rparr>) of
        Inl e \<Rightarrow> Inl (catch_block e)
      | Inr r \<Rightarrow> (case handle_response r of
                     Inl e \<Rightarrow> Inl (catch_block e)
                   | Inr d \<Rightarrow> Inr d))"
  by (simp add: makeRequest_def try_block_def build_request_def Let_def split: sum.splits)

lemma makeRequest_POST:
  "makeRequest h config endpoint POST params =
     (case fetch h
        \<lparr>req_method = POST,
         req_url = baseUrl config @ endpoint,
         req_headers = [(''Content-Type'', ''application/x-www-form-urlencoded'')],
         req_body = Some (URLSearchParams_toString h
                            (sortedEntries h (signedParams h config params)))\<rparr> of
        Inl e \<Rightarrow> Inl (catch_block e)
      | Inr r \<Rightarrow> (case handle_response r of
                     Inl e \<Rightarrow> Inl (catch_block e)
                   | Inr d \<Rightarrow> Inr d))"
  using makeRequest_dispatch [of h config endpoint POST params] by simp

lemmas run_urlencode = urlencode_def urlencode_char_def percent_byte_def hex_digit_def
  utf8_bytes_def isDigit_def isUpper_def isLower_def Let_def

lemma echoing_simps:
  "HmacSHA256_hex echoing = (\<lambda>message key. ''HMAC('' @ key @ '','' @ message @ '')'')"
  "localeCompare echoing = localeCompare_ascii"
  "URLSearchParams_toString echoing = form_urlencoded"
  "fetch echoing = echo"
  by (simp_all add: echoing_def symbolic_host_def)

lemma echo_POST:
  "(case echo \<lparr>req_method = POST, req_url = u, req_headers = hs, req_body = Some b\<rparr> of
      Inl e \<Rightarrow> Inl (catch_block e)
    | Inr r \<Rightarrow> (case handle_response r of Inl e \<Rightarrow> Inl (catch_block e) | Inr d \<Rightarrow> Inr d))
   = Inr (JObj [(''url'', JStr u), (''body'', JStr b)])"
  by (simp add: echo_def handle_response_def ok_def)

lemma echo_GET:
  "(case echo \<lparr>req_method = GET, req_url = u, req_headers = hs, req_body = None\<rparr> of
      Inl e \<Rightarrow> Inl (catch_block e)
    | Inr r \<Rightarrow> (case handle_response r of Inl e \<Rightarrow> Inl (catch_block e) | Inr d \<Rightarrow> Inr d))
   = Inr (JObj [(''url'', JStr u), (''body'', JNull)])"
  by (simp add: echo_def handle_response_def ok_def)

section \<open>The signer\<close>

text \<open>
  Claim C1. For every parameter set the string fed to the HMAC is built by sorting the
  parameter names in ascending lexicographic order and concatenating each name immediately
  followed by the string form of its value, with no delimiters: the sorted names are
  strictly ascending and are the names of the set, the string to sign is the canonical
  string of the specification, and \<^const>\<open>sign\<close> hands exactly that string to the HMAC with
  the secret key. In particular \<^verbatim>\<open>{b: "2", a: "1"}\<close> gives \<^verbatim>\<open>a1b2\<close>, whichever entry was
  inserted first.
\<close>

theorem C1_string_to_sign:
  assumes "wf_obj params"
  shows "sorted_wrt (<) (sortedKeys params)
       \<and> set (sortedKeys params) = fst ` set params
       \<and> toSign params = canonical_string params
       \<and> sign h config params = HmacSHA256_hex h (canonical_string params) (secretKey config)
       \<and> toSign [(''b'', Str ''2''), (''a'', Str ''1'')] = ''a1b2''
       \<and> toSign [(''a'', Str ''1''), (''b'', Str ''2'')] = ''a1b2''"
proof -
  have "toSign [(''b'', Str ''2''), (''a'', Str ''1'')] = ''a1b2''"
    by (simp add: toSign_def sortedKeys_sort obj_get_def)
  moreover have "toSign [(''a'', Str ''1''), (''b'', Str ''2'')] = ''a1b2''"
    by (simp add: toSign_def sortedKeys_sort obj_get_def)
  moreover have "set (sortedKeys params) = fst ` set params"
    by (simp add: sortedKeys_sort)
  moreover note sortedKeys_strict [OF assms] toSign_canonical [OF assms]
  ultimately show ?thesis
    by (simp add: sign_def)
qed

theorem C1_string_to_sign_witness:
  "wf_obj [(''b'', Str ''2''), (''a'', Num 1)]
   \<and> sortedKeys [(''b'', Str ''2''), (''a'', Num 1)] = [''a'', ''b'']
   \<and> toSign [(''b'', Str ''2''), (''a'', Num 1)] = ''a1b2''
   \<and> sign symbolic_host example_config [(''b'', Str ''2''), (''a'', Num 1)] = ''HMAC(S,a1b2)''"
proof -
  have wf: "wf_obj [(''b'', Str ''2''), (''a'', Num 1)]" by (simp add: wf_obj_def)
  have "canonical_string [(''b'', Str ''2''), (''a'', Num 1)] = ''a1b2''"
    by (simp add: canonical_string_def Number_toString_def decimal.simps digit_char_def)
  moreover have "sortedKeys [(''b'', Str ''2''), (''a'', Num 1)] = [''a'', ''b'']"
    by (simp add: sortedKeys_sort)
  ultimately show ?thesis
    using wf C1_string_to_sign [OF wf, of symbolic_host example_config]
    by (simp add: symbolic_host_def example_config_def)
qed

text \<open>
  Claim C2. The signature does not depend on the insertion order: two parameter sets with
  the same name/value pairs, inserted in any order, get the same signature. (That signing
  the same set twice gives the same output is how \<^const>\<open>sign\<close> is built: it is a function of
  the host's HMAC, the secret key and the parameter set, and keeps no state.)
\<close>

theorem C2_sign_order_independent:
  assumes "wf_obj params" and "mset params' = mset params"
  shows "sign h config params' = sign h config params"
  using assms
  by (simp add: sign_def toSign_canonical wf_obj_mset [OF assms] canonical_string_mset [OF assms])

theorem C2_sign_order_independent_witness:
  "wf_obj [(''b'', Str ''2''), (''a'', Str ''1'')]
   \<and> mset [(''a'', Str ''1''), (''b'', Str ''2'')] = mset [(''b'', Str ''2''), (''a'', Str ''1'')]
   \<and> sign symbolic_host example_config [(''a'', Str ''1''), (''b'', Str ''2'')]
     = sign symbolic_host example_config [(''b'', Str ''2''), (''a'', Str ''1'')]"
proof -
  have wf: "wf_obj [(''b'', Str ''2''), (''a'', Str ''1'')]" by (simp add: wf_obj_def)
  have ms: "mset [(''a'', Str ''1''), (''b'', Str ''2'')] = mset [(''b'', Str ''2''), (''a'', Str ''1'')]"
    by simp
  show ?thesis
    using wf ms C2_sign_order_independent [OF wf ms, of symbolic_host example_config] by simp
qed

section \<open>Sign order and wire order\<close>

text \<open>
  Claim C3, as stated, fails: the signing sort is \<^verbatim>\<open>sort()\<close>, which compares code units,
  and the wire sort compares with \<^verbatim>\<open>localeCompare\<close>. For the parameter set
  \<^verbatim>\<open>{B: "2", a: "1"}\<close> the names are signed in the order \<^verbatim>\<open>B, a, apiKey\<close> and sent in
  the order \<^verbatim>\<open>a, apiKey, B, s\<close>.
\<close>

theorem C3_counterexample:
  "signNames example_config [(''B'', Str ''2''), (''a'', Str ''1'')] = [''B'', ''a'', ''apiKey'']
   \<and> wireNames symbolic_host example_config [(''B'', Str ''2''), (''a'', Str ''1'')]
       = [''a'', ''apiKey'', ''B'', ''s'']
   \<and> removeAll ''s'' (wireNames symbolic_host example_config [(''B'', Str ''2''), (''a'', Str ''1'')])
       \<noteq> signNames example_config [(''B'', Str ''2''), (''a'', Str ''1'')]"
proof -
  have m: "paramsWithApiKey example_config [(''B'', Str ''2''), (''a'', Str ''1'')]
           = [(''apiKey'', Str ''K''), (''B'', Str ''2''), (''a'', Str ''1'')]"
    by (simp add: run_objects example_config_def)
  have s: "signNames example_config [(''B'', Str ''2''), (''a'', Str ''1'')] = [''B'', ''a'', ''apiKey'']"
    by (simp add: signNames_def sortedKeys_sort m)
  have w: "wireNames symbolic_host example_config [(''B'', Str ''2''), (''a'', Str ''1'')]
           = [''a'', ''apiKey'', ''B'', ''s'']"
    by (simp add: wireNames_def sortedEntries_def signedParams_def m spread_def
         Object_entries_plain not_index_Cons sort_by_def symbolic_host_def collate)
  show ?thesis by (simp add: s w)
qed

text \<open>
  Claim C3, amended. The two sorts use different comparators. The names of the string to
  sign are the names sent without \<^verbatim>\<open>s\<close>, in the same order, for every parameter set that
  has no parameter \<^verbatim>\<open>s\<close> and on whose names, \<^verbatim>\<open>apiKey\<close> and \<^verbatim>\<open>s\<close> included,
  \<^verbatim>\<open>localeCompare\<close> agrees with the order of code units; under the root collation that is
  so for every parameter set the four operations build.
\<close>

theorem C3_orders_agree_when_comparators_agree:
  "(''s'' \<notin> fst ` set params
     \<and> (\<forall>a\<in>insert ''s'' (insert ''apiKey'' (fst ` set params)).
        \<forall>b\<in>insert ''s'' (insert ''apiKey'' (fst ` set params)).
          (localeCompare h a b \<le> 0) = (a \<le> b))
     \<longrightarrow> removeAll ''s'' (wireNames h config params) = signNames config params)
   \<and> removeAll ''s''
        (wireNames (h\<lparr>localeCompare := localeCompare_ascii\<rparr>) config (createCustomer_params r1))
     = signNames config (createCustomer_params r1)
   \<and> removeAll ''s''
        (wireNames (h\<lparr>localeCompare := localeCompare_ascii\<rparr>) config (registerCustomer_params r2))
     = signNames config (registerCustomer_params r2)
   \<and> removeAll ''s''
        (wireNames (h\<lparr>localeCompare := localeCompare_ascii\<rparr>) config (getRegisterStatus_params r3))
     = signNames config (getRegisterStatus_params r3)
   \<and> removeAll ''s''
        (wireNames (h\<lparr>localeCompare := localeCompare_ascii\<rparr>) config (chargeCustomer_params r4))
     = signNames config (chargeCustomer_params r4)"
  using names_without_s [of params h config]
  by (simp only: names_create names_register names_status names_charge simp_thms) blast

theorem C3_orders_agree_when_comparators_agree_witness:
  "''s'' \<notin> fst ` set (createCustomer_params jane)
   \<and> signNames example_config (createCustomer_params jane)
       = [''apiKey'', ''email'', ''externalId'', ''name'']
   \<and> removeAll ''s'' (wireNames symbolic_host example_config (createCustomer_params jane))
       = [''apiKey'', ''email'', ''externalId'', ''name'']"
proof -
  have a: "''s'' \<notin> fst ` set (createCustomer_params jane)"
    by (simp add: createCustomer_params_def)
  have b: "\<forall>a\<in>insert ''s'' (insert ''apiKey'' (fst ` set (createCustomer_params jane))).
           \<forall>b\<in>insert ''s'' (insert ''apiKey'' (fst ` set (createCustomer_params jane))).
             (localeCompare symbolic_host a b \<le> 0) = (a \<le> b)"
    using agree_create by (simp add: createCustomer_params_def symbolic_host_def insert_commute)
  have c: "signNames example_config (createCustomer_params jane)
           = [''apiKey'', ''email'', ''externalId'', ''name'']"
    by (simp add: signNames_def sortedKeys_sort merged_jane)
  from C3_orders_agree_when_comparators_agree [of "createCustomer_params jane" symbolic_host example_config] a b
  have "removeAll ''s'' (wireNames symbolic_host example_config (createCustomer_params jane))
        = signNames example_config (createCustomer_params jane)"
    by blast
  then show ?thesis using a c by simp
qed

section \<open>The dispatch\<close>

text \<open>
  Claim C4, as stated, fails: \<^verbatim>\<open>makeRequest\<close> takes any parameter object. A parameter
  named \<^verbatim>\<open>s\<close> is signed with the others (for \<^verbatim>\<open>{s: "mine", a: 1}\<close> the string to sign is
  \<^verbatim>\<open>a1apiKeyKsmine\<close>) and the names sent are then the signed names, with no name more;
  a parameter named \<^verbatim>\<open>apiKey\<close> replaces the configured API key.
\<close>

theorem C4_counterexample:
  "toSign (paramsWithApiKey example_config [(''s'', Str ''mine''), (''a'', Num 1)])
     = ''a1apiKeyKsmine''
   \<and> signNames example_config [(''s'', Str ''mine''), (''a'', Num 1)] = [''a'', ''apiKey'', ''s'']
   \<and> wireNames symbolic_host example_config [(''s'', Str ''mine''), (''a'', Num 1)]
     = [''a'', ''apiKey'', ''s'']
   \<and> obj_get (paramsWithApiKey example_config [(''apiKey'', Str ''mine'')]) ''apiKey''
     = Some (Str ''mine'')"
proof -
  have m: "paramsWithApiKey example_config [(''s'', Str ''mine''), (''a'', Num 1)]
           = [(''apiKey'', Str ''K''), (''s'', Str ''mine''), (''a'', Num 1)]"
    by (simp add: run_objects example_config_def)
  have n: "Number_toString 1 = ''1''"
    by (simp add: Number_toString_def decimal.simps digit_char_def)
  have t: "toSign (paramsWithApiKey example_config [(''s'', Str ''mine''), (''a'', Num 1)])
           = ''a1apiKeyKsmine''"
    unfolding m by (simp add: toSign_def sortedKeys_sort obj_get_def n)
  have s: "signNames example_config [(''s'', Str ''mine''), (''a'', Num 1)]
           = [''a'', ''apiKey'', ''s'']"
    by (simp add: signNames_def sortedKeys_sort m)
  have w: "wireNames symbolic_host example_config [(''s'', Str ''mine''), (''a'', Num 1)]
           = [''a'', ''apiKey'', ''s'']"
    by (simp add: wireNames_def sortedEntries_def signedParams_def m spread_def
         Object_entries_plain not_index_Cons sort_by_def symbolic_host_def collate)
  have k: "obj_get (paramsWithApiKey example_config [(''apiKey'', Str ''mine'')]) ''apiKey''
           = Some (Str ''mine'')"
    by (simp add: run_objects example_config_def obj_get_def)
  from t s w k show ?thesis by (intro conjI)
qed

text \<open>
  Claim C4, amended. For every dispatch whose parameter set has no parameter named
  \<^verbatim>\<open>apiKey\<close> or \<^verbatim>\<open>s\<close>, as the parameter sets of the four operations are: the API key is
  merged under the name \<^verbatim>\<open>apiKey\<close> before signing, the signature is the HMAC of the string
  to sign of exactly that merged set, the name \<^verbatim>\<open>s\<close> is not among the signed names, the
  entries sent are the signed ones and the signature under \<^verbatim>\<open>s\<close>, each name once, and the
  request handed to \<^verbatim>\<open>fetch\<close> carries the serialisation of these entries, in the URL for a
  \<^verbatim>\<open>GET\<close> and in the body for a \<^verbatim>\<open>POST\<close>; the result of the dispatch is what the response
  handling makes of the outcome of that \<^verbatim>\<open>fetch\<close>.
\<close>

theorem C4_signature_over_merged_set:
  assumes "wf_obj params" and "''s'' \<notin> fst ` set params" and "''apiKey'' \<notin> fst ` set params"
  shows "signed_then_sent h config params
       \<and> makeRequest h config endpoint verb params =
           (case fetch h
              (if verb = GET
               then \<lparr>req_method = GET,
                     req_url = baseUrl config @ endpoint @ ''?''
                       @ URLSearchParams_toString h (sortedEntries h (signedParams h config params)),
                     req_headers = [(''Content-Type'', ''application/json'')],
                     req_body = None\<rparr>
               else \<lparr>req_method = POST,
                     req_url = baseUrl config @ endpoint,
                     req_headers = [(''Content-Type'', ''application/x-www-form-urlencoded'')],
                     req_body = Some (URLSearchParams_toString h
                                        (sortedEntries h (signedParams h config params)))\<rparr>) of
              Inl e \<Rightarrow> Inl (catch_block e)
            | Inr r \<Rightarrow> (case handle_response r of
                           Inl e \<Rightarrow> Inl (catch_block e)
                         | Inr d \<Rightarrow> Inr d))
       \<and> signed_then_sent h config (createCustomer_params r1)
       \<and> createCustomer h config r1
           = makeRequest h config ''/customer/create'' POST (createCustomer_params r1)
       \<and> signed_then_sent h config (registerCustomer_params r2)
       \<and> registerCustomer h config r2
           = makeRequest h config ''/customer/register'' POST (registerCustomer_params r2)
       \<and> signed_then_sent h config (getRegisterStatus_params r3)
       \<and> getRegisterStatus h config r3
           = makeRequest h config ''/customer/getRegisterStatus'' GET (getRegisterStatus_params r3)
       \<and> signed_then_sent h config (chargeCustomer_params r4)
       \<and> chargeCustomer h config r4
           = makeRequest h config ''/customer/charge'' POST (chargeCustomer_params r4)"
proof -
  have g: "signed_then_sent h config params"
    using assms by (rule signed_then_sent_general)
  have c: "signed_then_sent h config (createCustomer_params r1)"
    by (rule signed_then_sent_general) (simp_all add: createCustomer_params_def wf_obj_def)
  have r: "signed_then_sent h config (registerCustomer_params r2)"
    by (rule signed_then_sent_general) (simp_all add: registerCustomer_params_def wf_obj_def)
  have s: "signed_then_sent h config (getRegisterStatus_params r3)"
    by (rule signed_then_sent_general) (simp_all add: getRegisterStatus_params_def wf_obj_def)
  have ch: "signed_then_sent h config (chargeCustomer_params r4)"
    by (rule signed_then_sent_general) (simp_all add: chargeCustomer_wf chargeCustomer_keys)
  note d = makeRequest_dispatch [of h config endpoint verb params]
  from g d c r s ch show ?thesis
    by (simp only: createCustomer_def registerCustomer_def getRegisterStatus_def
          chargeCustomer_def simp_thms)
qed

theorem C4_signature_over_merged_set_witness:
  "wf_obj (getRegisterStatus_params \<lparr>token = ''t1''\<rparr>)
   \<and> ''s'' \<notin> fst ` set (getRegisterStatus_params \<lparr>token = ''t1''\<rparr>)
   \<and> ''apiKey'' \<notin> fst ` set (getRegisterStatus_params \<lparr>token = ''t1''\<rparr>)
   \<and> toSign (paramsWithApiKey example_config (getRegisterStatus_params \<lparr>token = ''t1''\<rparr>))
     = ''apiKeyKtokent1''
   \<and> getRegisterStatus echoing example_config \<lparr>token = ''t1''\<rparr>
     = Inr (JObj [(''url'', JStr ''https://flow.example/customer/getRegisterStatus?apiKey=K&s=HMAC%28S%2CapiKeyKtokent1%29&token=t1''),
                  (''body'', JNull)])"
proof -
  let ?p = "getRegisterStatus_params \<lparr>token = ''t1''\<rparr>"
  have a: "wf_obj ?p" "''s'' \<notin> fst ` set ?p" "''apiKey'' \<notin> fst ` set ?p"
    by (simp_all add: getRegisterStatus_params_def wf_obj_def)
  note t = C4_signature_over_merged_set [OF a, of echoing example_config
      "''/customer/getRegisterStatus''" GET jane
      "\<lparr>CustomerRegisterRequest.customerId = ''c1'', url_return = ''https://shop.example''\<rparr>"
      "\<lparr>token = ''t1''\<rparr>" plain_charge]
  have m: "paramsWithApiKey example_config ?p = [(''apiKey'', Str ''K''), (''token'', Str ''t1'')]"
    by (simp add: run_objects getRegisterStatus_params_def example_config_def)
  have ts0: "toSign [(''apiKey'', Str ''K''), (''token'', Str ''t1'')] = ''apiKeyKtokent1''"
    by (simp add: toSign_def sortedKeys_sort obj_get_def)
  have ts: "toSign (paramsWithApiKey example_config ?p) = ''apiKeyKtokent1''"
    unfolding m by (rule ts0)
  have sp: "signedParams echoing example_config ?p
            = [(''apiKey'', Str ''K''), (''token'', Str ''t1''),
               (''s'', Str ''HMAC(S,apiKeyKtokent1)'')]"
    unfolding signedParams_def Let_def sign_def m ts0
    by (simp add: echoing_simps example_config_def spread_def Object_entries_plain
          not_index_Cons isDigit_def)
  have e: "sortedEntries echoing (signedParams echoing example_config ?p)
           = [(''apiKey'', ''K''), (''s'', ''HMAC(S,apiKeyKtokent1)''), (''token'', ''t1'')]"
    unfolding sp
    by (simp add: sortedEntries_def Object_entries_plain not_index_Cons sort_by_def
          echoing_simps collate)
  have q: "form_urlencoded [(''apiKey'', ''K''), (''s'', ''HMAC(S,apiKeyKtokent1)''), (''token'', ''t1'')]
           = ''apiKey=K&s=HMAC%28S%2CapiKeyKtokent1%29&token=t1''"
    by (simp add: run_urlencode)
  have "getRegisterStatus echoing example_config \<lparr>token = ''t1''\<rparr>
        = makeRequest echoing example_config ''/customer/getRegisterStatus'' GET ?p"
    by (rule t [THEN conjunct2, THEN conjunct2, THEN conjunct2, THEN conjunct2, THEN conjunct2, THEN conjunct2, THEN conjunct2, THEN conjunct1])
  also have "\<dots> =
        (case fetch echoing
              (if GET = GET
               then \<lparr>req_method = GET,
                     req_url = baseUrl example_config @ ''/customer/getRegisterStatus'' @ ''?''
                       @ URLSearchParams_toString echoing
                           (sortedEntries echoing (signedParams echoing example_config ?p)),
                     req_headers = [(''Content-Type'', ''application/json'')],
                     req_body = None\<rparr>
               else \<lparr>req_method = POST,
                     req_url = baseUrl example_config @ ''/customer/getRegisterStatus'',
                     req_headers = [(''Content-Type'', ''application/x-www-form-urlencoded'')],
                     req_body = Some (URLSearchParams_toString echoing
                                        (sortedEntries echoing
                                           (signedParams echoing example_config ?p)))\<rparr>) of
              Inl e \<Rightarrow> Inl (catch_block e)
            | Inr r \<Rightarrow> (case handle_response r of
                           Inl e \<Rightarrow> Inl (catch_block e)
                         | Inr d \<Rightarrow> Inr d))"
    by (rule t [THEN conjunct2, THEN conjunct1])
  also have "\<dots> = Inr (JObj [(''url'', JStr ''https://flow.example/customer/getRegisterStatus?apiKey=K&s=HMAC%28S%2CapiKeyKtokent1%29&token=t1''),
                  (''body'', JNull)])"
    unfolding e echoing_simps q by (simp add: echo_GET example_config_def)
  finally show ?thesis using a ts by (intro conjI)
qed

section \<open>The end-to-end scenario\<close>

text \<open>
  Claim C5, as stated, fails: for the customer named \<^verbatim>\<open>Jane Doe\<close> with email
  \<^verbatim>\<open>jane@example.com\<close> and external id \<^verbatim>\<open>u123\<close> the string to sign has no space after
  \<^verbatim>\<open>email\<close> and keeps the capitals of the name; with the API key \<^verbatim>\<open>K\<close> it is not the
  string the claim gives.
\<close>

theorem C5_counterexample:
  "toSign (paramsWithApiKey example_config (createCustomer_params jane))
     = ''apiKeyKemailjane@example.comexternalIdu123nameJane Doe''
   \<and> toSign (paramsWithApiKey example_config (createCustomer_params jane))
     \<noteq> ''apiKey'' @ apiKey example_config @ ''email jane@example.comexternalIdu123namejane doe''"
  by (simp add: toSign_jane example_config_def)

text \<open>
  Claim C5, amended. Creating the customer \<^verbatim>\<open>Jane Doe\<close>, \<^verbatim>\<open>jane@example.com\<close>, \<^verbatim>\<open>u123\<close>
  signs the string \<^verbatim>\<open>apiKey<K>emailjane@example.comexternalIdu123nameJane Doe\<close> and hands to
  \<^verbatim>\<open>fetch\<close> a \<^verbatim>\<open>POST\<close> request to \<^verbatim>\<open>/customer/create\<close> whose body serialises exactly the
  entries \<^verbatim>\<open>apiKey\<close>, \<^verbatim>\<open>email\<close>, \<^verbatim>\<open>externalId\<close>, \<^verbatim>\<open>name\<close> and \<^verbatim>\<open>s\<close>, where \<^verbatim>\<open>s\<close> is the
  HMAC-SHA256 of that string under the secret key, rendered as lowercase hexadecimal (the
  rendering \<^verbatim>\<open>CryptoJS.enc.Hex\<close> of the host, which \<^const>\<open>HmacSHA256_hex\<close> stands for).
\<close>

theorem C5_create_customer_signed:
  "toSign (paramsWithApiKey config (createCustomer_params jane))
     = ''apiKey'' @ apiKey config @ ''emailjane@example.comexternalIdu123nameJane Doe''
   \<and> set (sortedEntries h (signedParams h config (createCustomer_params jane)))
     = {(''apiKey'', apiKey config), (''email'', ''jane@example.com''),
        (''externalId'', ''u123''), (''name'', ''Jane Doe''),
        (''s'', HmacSHA256_hex h
           (''apiKey'' @ apiKey config @ ''emailjane@example.comexternalIdu123nameJane Doe'')
           (secretKey config))}
   \<and> distinct (wireNames h config (createCustomer_params jane))
   \<and> createCustomer h config jane =
       (case fetch h
          \<lparr>req_method = POST,
           req_url = baseUrl config @ ''/customer/create'',
           req_headers = [(''Content-Type'', ''application/x-www-form-urlencoded'')],
           req_body = Some (URLSearchParams_toString h
                              (sortedEntries h
                                 (signedParams h config (createCustomer_params jane))))\<rparr> of
          Inl e \<Rightarrow> Inl (catch_block e)
        | Inr r \<Rightarrow> (case handle_response r of
                       Inl e \<Rightarrow> Inl (catch_block e)
                     | Inr d \<Rightarrow> Inr d))"
proof -
  have e: "set (sortedEntries h (signedParams h config (createCustomer_params jane)))
        = insert (''s'', sign h config (paramsWithApiKey config (createCustomer_params jane)))
            (insert (''apiKey'', apiKey config)
              ((\<lambda>e. (fst e, String_of (snd e))) ` set (createCustomer_params jane)))"
    by (rule sent_entries) (simp_all add: createCustomer_params_def wf_obj_def)
  have s: "sign h config (paramsWithApiKey config (createCustomer_params jane))
        = HmacSHA256_hex h
          (''apiKey'' @ apiKey config @ ''emailjane@example.comexternalIdu123nameJane Doe'')
          (secretKey config)"
    by (simp only: sign_def toSign_jane)
  have i: "(\<lambda>e. (fst e, String_of (snd e))) ` set (createCustomer_params jane)
        = {(''email'', ''jane@example.com''), (''externalId'', ''u123''), (''name'', ''Jane Doe'')}"
    by (auto simp: createCustomer_params_def jane_def)
  have e': "set (sortedEntries h (signedParams h config (createCustomer_params jane)))
     = {(''apiKey'', apiKey config), (''email'', ''jane@example.com''),
        (''externalId'', ''u123''), (''name'', ''Jane Doe''),
        (''s'', HmacSHA256_hex h
           (''apiKey'' @ apiKey config @ ''emailjane@example.comexternalIdu123nameJane Doe'')
           (secretKey config))}"
    unfolding e s i by (simp add: insert_commute)
  have d: "distinct (wireNames h config (createCustomer_params jane))"
    by (rule wireNames_distinct)
  have c: "createCustomer h config jane =
       (case fetch h
          \<lparr>req_method = POST,
           req_url = baseUrl config @ ''/customer/create'',
           req_headers = [(''Content-Type'', ''application/x-www-form-urlencoded'')],
           req_body = Some (URLSearchParams_toString h
                              (sortedEntries h
                                 (signedParams h config (createCustomer_params jane))))\<rparr> of
          Inl e \<Rightarrow> Inl (catch_block e)
        | Inr r \<Rightarrow> (case handle_response r of
                       Inl e \<Rightarrow> Inl (catch_block e)
                     | Inr d \<Rightarrow> Inr d))"
    unfolding createCustomer_def by (rule makeRequest_POST)
  from toSign_jane [of config] e' d c show ?thesis by (intro conjI)
qed

theorem C5_create_customer_signed_witness:
  "createCustomer echoing example_config jane
   = Inr (JObj [(''url'', JStr ''https://flow.example/customer/create''),
                (''body'', JStr ''apiKey=K&email=jane%40example.com&externalId=u123&name=Jane+Doe&s=HMAC%28S%2CapiKeyKemailjane%40example.comexternalIdu123nameJane+Doe%29'')])"
proof -
  note t = C5_create_customer_signed [of example_config echoing]
  have sp: "signedParams echoing example_config (createCustomer_params jane)
        = [(''apiKey'', Str ''K''), (''name'', Str ''Jane Doe''),
           (''email'', Str ''jane@example.com''), (''externalId'', Str ''u123''),
           (''s'', Str ''HMAC(S,apiKeyKemailjane@example.comexternalIdu123nameJane Doe)'')]"
  proof -
    have "sign echoing example_config (paramsWithApiKey example_config (createCustomer_params jane))
          = ''HMAC(S,apiKeyKemailjane@example.comexternalIdu123nameJane Doe)''"
      unfolding sign_def toSign_jane by (simp add: echoing_simps example_config_def)
    then show ?thesis
      unfolding signedParams_def Let_def merged_jane
      by (simp add: spread_def Object_entries_plain not_index_Cons isDigit_def
            example_config_def)
  qed
  have e: "sortedEntries echoing (signedParams echoing example_config (createCustomer_params jane))
        = [(''apiKey'', ''K''), (''email'', ''jane@example.com''), (''externalId'', ''u123''),
           (''name'', ''Jane Doe''),
           (''s'', ''HMAC(S,apiKeyKemailjane@example.comexternalIdu123nameJane Doe)'')]"
    unfolding sp
    by (simp add: sortedEntries_def Object_entries_plain not_index_Cons sort_by_def
          echoing_simps collate)
  have q: "form_urlencoded
            [(''apiKey'', ''K''), (''email'', ''jane@example.com''), (''externalId'', ''u123''),
             (''name'', ''Jane Doe''),
             (''s'', ''HMAC(S,apiKeyKemailjane@example.comexternalIdu123nameJane Doe)'')]
        = ''apiKey=K&email=jane%40example.com&externalId=u123&name=Jane+Doe&s=HMAC%28S%2CapiKeyKemailjane%40example.comexternalIdu123nameJane+Doe%29''"
    by (simp add: run_urlencode)
  have "createCustomer echoing example_config jane =
       (case fetch echoing
          \<lparr>req_method = POST,
           req_url = baseUrl example_config @ ''/customer/create'',
           req_headers = [(''Content-Type'', ''application/x-www-form-urlencoded'')],
           req_body = Some (URLSearchParams_toString echoing
                              (sortedEntries echoing
                                 (signedParams echoing example_config
                                    (createCustomer_params jane))))\<rparr> of
          Inl e \<Rightarrow> Inl (catch_block e)
        | Inr r \<Rightarrow> (case handle_response r of
                       Inl e \<Rightarrow> Inl (catch_block e)
                     | Inr d \<Rightarrow> Inr d))"
    by (rule t [THEN conjunct2, THEN conjunct2, THEN conjunct2])
  also have "\<dots> = Inr (JObj [(''url'', JStr ''https://flow.example/customer/create''),
                (''body'', JStr ''apiKey=K&email=jane%40example.com&externalId=u123&name=Jane+Doe&s=HMAC%28S%2CapiKeyKemailjane%40example.comexternalIdu123nameJane+Doe%29'')])"
    unfolding e echoing_simps q by (simp add: echo_POST example_config_def)
  finally show ?thesis .
qed

section \<open>The charge operation\<close>

text \<open>
  Claim C6. A charge without any of the optional fields hands to \<^verbatim>\<open>fetch\<close> a \<^verbatim>\<open>POST\<close>
  request to \<^verbatim>\<open>/customer/charge\<close> whose body serialises entries of exactly the names
  \<^verbatim>\<open>customerId\<close>, \<^verbatim>\<open>amount\<close>, \<^verbatim>\<open>currency\<close>, \<^verbatim>\<open>subject\<close>, \<^verbatim>\<open>apiKey\<close> and \<^verbatim>\<open>s\<close>, each
  once: no entry stands for an omitted field. For an amount that is a safe integer the
  entries are the values of the request, the API key and the signature.
\<close>

theorem C6_charge_without_optionals:
  assumes "commerceOrder r = None" and "CustomerChargeRequest.email r = None"
    and "urlConfirmation r = None" and "urlReturn r = None"
  shows "chargeCustomer_params r
         = [(''customerId'', Str (CustomerChargeRequest.customerId r)), (''amount'', Num (amount r)),
            (''currency'', Str (currency r)), (''subject'', Str (subject r))]
       \<and> set (wireNames h config (chargeCustomer_params r))
         = {''customerId'', ''amount'', ''currency'', ''subject'', ''apiKey'', ''s''}
       \<and> distinct (wireNames h config (chargeCustomer_params r))
       \<and> length (wireNames h config (chargeCustomer_params r)) = 6
       \<and> (isSafeInteger (amount r) \<longrightarrow>
            set (sortedEntries h (signedParams h config (chargeCustomer_params r)))
            = {(''customerId'', CustomerChargeRequest.customerId r),
               (''amount'', Number_toString (amount r)),
               (''currency'', currency r), (''subject'', subject r),
               (''apiKey'', apiKey config),
               (''s'', sign h config (paramsWithApiKey config (chargeCustomer_params r)))})
       \<and> chargeCustomer h config r =
           (case fetch h
              \<lparr>req_method = POST,
               req_url = baseUrl config @ ''/customer/charge'',
               req_headers = [(''Content-Type'', ''application/x-www-form-urlencoded'')],
               req_body = Some (URLSearchParams_toString h
                                  (sortedEntries h
                                     (signedParams h config (chargeCustomer_params r))))\<rparr> of
              Inl e \<Rightarrow> Inl (catch_block e)
            | Inr r \<Rightarrow> (case handle_response r of
                           Inl e \<Rightarrow> Inl (catch_block e)
                         | Inr d \<Rightarrow> Inr d))"
proof -
  have p: "chargeCustomer_params r
         = [(''customerId'', Str (CustomerChargeRequest.customerId r)), (''amount'', Num (amount r)),
            (''currency'', Str (currency r)), (''subject'', Str (subject r))]"
    using assms by (simp add: chargeCustomer_list)
  have n: "set (wireNames h config (chargeCustomer_params r))
         = {''customerId'', ''amount'', ''currency'', ''subject'', ''apiKey'', ''s''}"
    by (auto simp: wireNames_set p)
  have d: "distinct (wireNames h config (chargeCustomer_params r))"
    by (rule wireNames_distinct)
  have "card (set (wireNames h config (chargeCustomer_params r))) = 6"
    by (simp add: n)
  then have l: "length (wireNames h config (chargeCustomer_params r)) = 6"
    using d by (simp add: distinct_card)
  have e: "set (sortedEntries h (signedParams h config (chargeCustomer_params r)))
         = {(''customerId'', CustomerChargeRequest.customerId r),
            (''amount'', Number_toString (amount r)),
            (''currency'', currency r), (''subject'', subject r),
            (''apiKey'', apiKey config),
            (''s'', sign h config (paramsWithApiKey config (chargeCustomer_params r)))}"
  proof -
    have "wf_obj (chargeCustomer_params r)" by (rule chargeCustomer_wf)
    moreover have "''s'' \<notin> fst ` set (chargeCustomer_params r)"
      and "''apiKey'' \<notin> fst ` set (chargeCustomer_params r)"
      by (simp_all add: chargeCustomer_keys)
    ultimately have "set (sortedEntries h (signedParams h config (chargeCustomer_params r)))
         = insert (''s'', sign h config (paramsWithApiKey config (chargeCustomer_params r)))
             (insert (''apiKey'', apiKey config)
                ((\<lambda>e. (fst e, String_of (snd e))) ` set (chargeCustomer_params r)))"
      by (rule sent_entries)
    also have "(\<lambda>e. (fst e, String_of (snd e))) ` set (chargeCustomer_params r)
         = {(''customerId'', CustomerChargeRequest.customerId r),
            (''amount'', Number_toString (amount r)),
            (''currency'', currency r), (''subject'', subject r)}"
      by (simp add: p)
    finally show ?thesis by (simp add: insert_commute)
  qed
  have f: "chargeCustomer h config r =
           (case fetch h
              \<lparr>req_method = POST,
               req_url = baseUrl config @ ''/customer/charge'',
               req_headers = [(''Content-Type'', ''application/x-www-form-urlencoded'')],
               req_body = Some (URLSearchParams_toString h
                                  (sortedEntries h
                                     (signedParams h config (chargeCustomer_params r))))\<rparr> of
              Inl e \<Rightarrow> Inl (catch_block e)
            | Inr r \<Rightarrow> (case handle_response r of
                           Inl e \<Rightarrow> Inl (catch_block e)
                         | Inr d \<Rightarrow> Inr d))"
    unfolding chargeCustomer_def by (rule makeRequest_POST)
  from p n d l e f show ?thesis by (intro conjI impI)
qed

theorem C6_charge_without_optionals_witness:
  "commerceOrder plain_charge = None \<and> CustomerChargeRequest.email plain_charge = None
   \<and> urlConfirmation plain_charge = None \<and> urlReturn plain_charge = None
   \<and> isSafeInteger (amount plain_charge)
   \<and> set (wireNames echoing example_config (chargeCustomer_params plain_charge))
       = {''customerId'', ''amount'', ''currency'', ''subject'', ''apiKey'', ''s''}
   \<and> sortedEntries echoing
         (signedParams echoing example_config (chargeCustomer_params plain_charge))
       = [(''amount'', ''15000''), (''apiKey'', ''K''), (''currency'', ''CLP''),
          (''customerId'', ''c1''),
          (''s'', ''HMAC(S,amount15000apiKeyKcurrencyCLPcustomerIdc1subjectPlan)''),
          (''subject'', ''Plan'')]
   \<and> chargeCustomer echoing example_config plain_charge
       = Inr (JObj [(''url'', JStr ''https://flow.example/customer/charge''),
                    (''body'', JStr ''amount=15000&apiKey=K&currency=CLP&customerId=c1&s=HMAC%28S%2Camount15000apiKeyKcurrencyCLPcustomerIdc1subjectPlan%29&subject=Plan'')])"
proof -
  have a: "commerceOrder plain_charge = None" "CustomerChargeRequest.email plain_charge = None"
    "urlConfirmation plain_charge = None" "urlReturn plain_charge = None"
    by (simp_all add: plain_charge_def)
  have safe: "isSafeInteger (amount plain_charge)"
    by (simp add: isSafeInteger_def plain_charge_def)
  note t = C6_charge_without_optionals [OF a, of echoing example_config]
  have p: "chargeCustomer_params plain_charge
           = [(''customerId'', Str ''c1''), (''amount'', Num 15000),
              (''currency'', Str ''CLP''), (''subject'', Str ''Plan'')]"
    using t by (simp add: plain_charge_def)
  have m: "paramsWithApiKey example_config (chargeCustomer_params plain_charge)
           = [(''apiKey'', Str ''K''), (''customerId'', Str ''c1''), (''amount'', Num 15000),
              (''currency'', Str ''CLP''), (''subject'', Str ''Plan'')]"
    by (simp add: p run_objects example_config_def)
  have n: "Number_toString 15000 = ''15000''"
    by (simp add: Number_toString_def decimal.simps digit_char_def)
  have ts: "toSign [(''apiKey'', Str ''K''), (''customerId'', Str ''c1''), (''amount'', Num 15000),
              (''currency'', Str ''CLP''), (''subject'', Str ''Plan'')]
            = ''amount15000apiKeyKcurrencyCLPcustomerIdc1subjectPlan''"
    by (simp add: toSign_def sortedKeys_sort obj_get_def n)
  have sp: "signedParams echoing example_config (chargeCustomer_params plain_charge)
           = [(''apiKey'', Str ''K''), (''customerId'', Str ''c1''), (''amount'', Num 15000),
              (''currency'', Str ''CLP''), (''subject'', Str ''Plan''),
              (''s'', Str ''HMAC(S,amount15000apiKeyKcurrencyCLPcustomerIdc1subjectPlan)'')]"
    unfolding signedParams_def Let_def sign_def m ts
    by (simp add: spread_def Object_entries_plain not_index_Cons isDigit_def echoing_simps
          example_config_def)
  have e: "sortedEntries echoing
         (signedParams echoing example_config (chargeCustomer_params plain_charge))
       = [(''amount'', ''15000''), (''apiKey'', ''K''), (''currency'', ''CLP''),
          (''customerId'', ''c1''),
          (''s'', ''HMAC(S,amount15000apiKeyKcurrencyCLPcustomerIdc1subjectPlan)''),
          (''subject'', ''Plan'')]"
    unfolding sp
    by (simp add: sortedEntries_def Object_entries_plain not_index_Cons sort_by_def
          echoing_simps collate n)
  have q: "form_urlencoded
             [(''amount'', ''15000''), (''apiKey'', ''K''), (''currency'', ''CLP''),
              (''customerId'', ''c1''),
              (''s'', ''HMAC(S,amount15000apiKeyKcurrencyCLPcustomerIdc1subjectPlan)''),
              (''subject'', ''Plan'')]
           = ''amount=15000&apiKey=K&currency=CLP&customerId=c1&s=HMAC%28S%2Camount15000apiKeyKcurrencyCLPcustomerIdc1subjectPlan%29&subject=Plan''"
    by (simp add: run_urlencode)
  have w: "set (wireNames echoing example_config (chargeCustomer_params plain_charge))
       = {''customerId'', ''amount'', ''currency'', ''subject'', ''apiKey'', ''s''}"
    by (rule t [THEN conjunct2, THEN conjunct1])
  have "chargeCustomer echoing example_config plain_charge =
           (case fetch echoing
              \<lparr>req_method = POST,
               req_url = baseUrl example_config @ ''/customer/charge'',
               req_headers = [(''Content-Type'', ''application/x-www-form-urlencoded'')],
               req_body = Some (URLSearchParams_toString echoing
                                  (sortedEntries echoing
                                     (signedParams echoing example_config
                                        (chargeCustomer_params plain_charge))))\<rparr> of
              Inl e \<Rightarrow> Inl (catch_block e)
            | Inr r \<Rightarrow> (case handle_response r of
                           Inl e \<Rightarrow> Inl (catch_block e)
                         | Inr d \<Rightarrow> Inr d))"
    by (rule t [THEN conjunct2, THEN conjunct2, THEN conjunct2, THEN conjunct2, THEN conjunct2])
  also have "\<dots> = Inr (JObj [(''url'', JStr ''https://flow.example/customer/charge''),
                    (''body'', JStr ''amount=15000&apiKey=K&currency=CLP&customerId=c1&s=HMAC%28S%2Camount15000apiKeyKcurrencyCLPcustomerIdc1subjectPlan%29&subject=Plan'')])"
    unfolding e echoing_simps q by (simp add: echo_POST example_config_def)
  finally have c: "chargeCustomer echoing example_config plain_charge
       = Inr (JObj [(''url'', JStr ''https://flow.example/customer/charge''),
                    (''body'', JStr ''amount=15000&apiKey=K&currency=CLP&customerId=c1&s=HMAC%28S%2Camount15000apiKeyKcurrencyCLPcustomerIdc1subjectPlan%29&subject=Plan'')])" .
  from a safe w e c show ?thesis by (intro conjI)
qed

section \<open>Responses and failures\<close>

text \<open>
  Claim C7, as stated, fails: a 200 response with the body \<^verbatim>\<open>{"code":7,"message":""}\<close>
  carries a nonzero code and a message, and the failure carries the code but not that
  message: \<^verbatim>\<open>data.message || "API error"\<close> replaces an empty message.
\<close>

theorem C7_counterexample:
  "makeRequest
     (responding \<lparr>status = 200, json_body = Inr (JObj [(''code'', JNum 7), (''message'', JStr [])])\<rparr>)
     example_config ''/customer/create'' POST (createCustomer_params jane)
   = Inl (FlowApiError ''API error'' (JNum 7))
   \<and> makeRequest
     (responding \<lparr>status = 200, json_body = Inr (JObj [(''code'', JNum 7), (''message'', JStr [])])\<rparr>)
     example_config ''/customer/create'' POST (createCustomer_params jane)
   \<noteq> Inl (FlowApiError [] (JNum 7))"
proof -
  let ?r = "\<lparr>status = 200, json_body = Inr (JObj [(''code'', JNum 7), (''message'', JStr [])])\<rparr>"
  have "handle_response ?r = Inl (FlowApiError ''API error'' (JNum 7))"
    by (simp add: handle_response_def ok_def new_FlowApiError_string)
  then show ?thesis
    by (simp add: makeRequest_def try_block_def responding_def)
qed

text \<open>
  Claim C7, amended. For every 2xx response whose body parses to a JSON value other than
  \<^verbatim>\<open>null\<close>: if the body has a truthy code (a nonzero number) and its message is a string
  or missing, the operation fails with exactly that code, and with the body's message when
  that is not empty, with the text \<^verbatim>\<open>API error\<close> when the message is missing or empty; if
  the code is missing or 0, the operation yields the body.
\<close>

theorem C7_success_status_mapping:
  assumes "fetch h (build_request h config endpoint verb params) = Inr r"
    and "ok r" and "json_body r = Inr data"
    and "getProp data ''code'' = Inr c" and "getProp data ''message'' = Inr m"
  shows "(c = Some v \<and> truthy v \<and> m = Some (JStr msg) \<and> msg \<noteq> []
            \<longrightarrow> makeRequest h config endpoint verb params = Inl (FlowApiError msg v))
       \<and> (c = Some v \<and> truthy v \<and> (m = None \<or> m = Some (JStr []))
            \<longrightarrow> makeRequest h config endpoint verb params = Inl (FlowApiError ''API error'' v))
       \<and> (c = None \<or> c = Some (JNum 0)
            \<longrightarrow> makeRequest h config endpoint verb params = Inr data)"
  using assms(2-5)
  by (auto simp: makeRequest_response [OF assms(1)] handle_ok new_FlowApiError_string)

theorem C7_success_status_mapping_witness:
  "makeRequest
     (responding \<lparr>status = 200,
        json_body = Inr (JObj [(''code'', JNum 7), (''message'', JStr ''declined'')])\<rparr>)
     example_config ''/customer/create'' POST (createCustomer_params jane)
   = Inl (FlowApiError ''declined'' (JNum 7))
   \<and> makeRequest
     (responding \<lparr>status = 200,
        json_body = Inr (JObj [(''customerId'', JStr ''c1''), (''name'', JStr ''A''),
                               (''email'', JStr ''a@b.com''), (''status'', JStr ''ok'')])\<rparr>)
     example_config ''/customer/create'' POST (createCustomer_params jane)
   = Inr (JObj [(''customerId'', JStr ''c1''), (''name'', JStr ''A''),
                (''email'', JStr ''a@b.com''), (''status'', JStr ''ok'')])"
proof -
  let ?declined = "JObj [(''code'', JNum 7), (''message'', JStr ''declined'')]"
  let ?customer = "JObj [(''customerId'', JStr ''c1''), (''name'', JStr ''A''),
                         (''email'', JStr ''a@b.com''), (''status'', JStr ''ok'')]"
  let ?r1 = "\<lparr>status = 200, json_body = Inr ?declined\<rparr>"
  let ?r2 = "\<lparr>status = 200, json_body = Inr ?customer\<rparr>"
  have "makeRequest (responding ?r1) example_config ''/customer/create'' POST
          (createCustomer_params jane) = Inl (FlowApiError ''declined'' (JNum 7))"
    using C7_success_status_mapping [where h = "responding ?r1" and r = ?r1
        and data = ?declined and c = "Some (JNum 7)" and m = "Some (JStr ''declined'')"
        and v = "JNum 7" and msg = "''declined''" and config = example_config
        and endpoint = "''/customer/create''" and verb = POST
        and params = "createCustomer_params jane"]
    by (simp add: responding_def ok_def)
  moreover have "makeRequest (responding ?r2) example_config ''/customer/create'' POST
          (createCustomer_params jane) = Inr ?customer"
    using C7_success_status_mapping [where h = "responding ?r2" and r = ?r2
        and data = ?customer and c = None and m = None
        and config = example_config
        and endpoint = "''/customer/create''" and verb = POST
        and params = "createCustomer_params jane"]
    by (simp add: responding_def ok_def)
  ultimately show ?thesis by (intro conjI)
qed

text \<open>
  Claim C8, as stated, fails: a 400 response whose JSON body has the code 42 and an empty
  message yields the message \<^verbatim>\<open>HTTP error 400\<close>, and one whose body has the code 0 and
  the message \<^verbatim>\<open>bad request\<close> yields the code 400: \<^verbatim>\<open>||\<close> replaces an empty message and
  a zero code.
\<close>

theorem C8_counterexample:
  "makeRequest
     (responding \<lparr>status = 400, json_body = Inr (JObj [(''code'', JNum 42), (''message'', JStr [])])\<rparr>)
     example_config ''/customer/create'' POST (createCustomer_params jane)
   = Inl (FlowApiError ''HTTP error 400'' (JNum 42))
   \<and> makeRequest
     (responding \<lparr>status = 400, json_body = Inr (JObj [(''code'', JNum 0), (''message'', JStr ''bad request'')])\<rparr>)
     example_config ''/customer/create'' POST (createCustomer_params jane)
   = Inl (FlowApiError ''bad request'' (JNum 400))"
proof -
  have d: "decimal 400 = ''400''" by (simp add: decimal.simps digit_char_def)
  show ?thesis
    by (simp add: makeRequest_def try_block_def responding_def handle_response_def ok_def
          new_FlowApiError_string d)
qed

text \<open>
  Claim C8, amended. For every non-2xx response: if the body is not parseable JSON, the
  operation fails with the HTTP status as code and the message \<^verbatim>\<open>Unknown error\<close>; if the
  body parses to a JSON value other than \<^verbatim>\<open>null\<close>, whose message is a string or missing, the
  operation fails with the body's message when that is not empty, otherwise with
  \<^verbatim>\<open>HTTP error <status>\<close>, and with the body's code when that is truthy (a nonzero
  number), otherwise with the HTTP status.
\<close>

theorem C8_error_status_mapping:
  assumes "fetch h (build_request h config endpoint verb params) = Inr r" and "\<not> ok r"
  shows "(json_body r = Inl e
            \<longrightarrow> makeRequest h config endpoint verb params
                = Inl (FlowApiError ''Unknown error'' (JNum (int (status r)))))
       \<and> (json_body r = Inr data \<and> getProp data ''code'' = Inr c \<and> getProp data ''message'' = Inr m
          \<and> (m = None \<or> m = Some (JStr msg))
            \<longrightarrow> makeRequest h config endpoint verb params
                = Inl (FlowApiError
                         (if m = Some (JStr msg) \<and> msg \<noteq> [] then msg
                          else ''HTTP error '' @ decimal (status r))
                         (case c of
                            Some v \<Rightarrow> if truthy v then v else JNum (int (status r))
                          | None \<Rightarrow> JNum (int (status r)))))"
  using assms(2)
  by (auto simp: makeRequest_response [OF assms(1)] handle_not_ok_parsed
        handle_not_ok_unparseable new_FlowApiError_string split: option.splits)

theorem C8_error_status_mapping_witness:
  "makeRequest
     (responding \<lparr>status = 400,
        json_body = Inr (JObj [(''code'', JNum 42), (''message'', JStr ''bad request'')])\<rparr>)
     example_config ''/customer/create'' POST (createCustomer_params jane)
   = Inl (FlowApiError ''bad request'' (JNum 42))
   \<and> makeRequest
     (responding \<lparr>status = 503, json_body = Inl ''Unexpected token < in JSON at position 0''\<rparr>)
     example_config ''/customer/create'' POST (createCustomer_params jane)
   = Inl (FlowApiError ''Unknown error'' (JNum 503))"
proof -
  let ?bad = "JObj [(''code'', JNum 42), (''message'', JStr ''bad request'')]"
  let ?r1 = "\<lparr>status = 400, json_body = Inr ?bad\<rparr>"
  let ?r2 = "\<lparr>status = 503, json_body = Inl ''Unexpected token < in JSON at position 0''\<rparr>"
  have "makeRequest (responding ?r1) example_config ''/customer/create'' POST
          (createCustomer_params jane) = Inl (FlowApiError ''bad request'' (JNum 42))"
    using C8_error_status_mapping [where h = "responding ?r1" and r = ?r1
        and data = ?bad and c = "Some (JNum 42)" and m = "Some (JStr ''bad request'')"
        and msg = "''bad request''" and config = example_config
        and endpoint = "''/customer/create''" and verb = POST
        and params = "createCustomer_params jane"]
    by (simp add: responding_def ok_def)
  moreover have "makeRequest (responding ?r2) example_config ''/customer/create'' POST
          (createCustomer_params jane) = Inl (FlowApiError ''Unknown error'' (JNum 503))"
    using C8_error_status_mapping [where h = "responding ?r2" and r = ?r2
        and e = "''Unexpected token < in JSON at position 0''" and config = example_config
        and endpoint = "''/customer/create''" and verb = POST
        and params = "createCustomer_params jane"]
    by (simp add: responding_def ok_def)
  ultimately show ?thesis by (intro conjI)
qed

text \<open>
  Claim C9. When the transport rejects with an error that is not a \<^verbatim>\<open>FlowApiError\<close>, the
  dispatch fails with the code 500 and that error's message; a \<^verbatim>\<open>FlowApiError\<close>, whether
  the transport rejects with it or the \<^verbatim>\<open>try\<close> block throws it, is passed on with its own
  message and code, and handling a handled failure again changes nothing. (A rejection with
  a value that is no \<^verbatim>\<open>Error\<close> has no message to pass on: it fails with the code 500 and
  the text \<^verbatim>\<open>Unknown error occurred\<close>.)
\<close>

theorem C9_transport_failure_mapping:
  "(fetch h (build_request h config endpoint verb params) = Inl (Error msg)
      \<longrightarrow> makeRequest h config endpoint verb params = Inl (FlowApiError msg (JNum 500)))
   \<and> (fetch h (build_request h config endpoint verb params) = Inl (FlowApiError msg code)
      \<longrightarrow> makeRequest h config endpoint verb params = Inl (FlowApiError msg code))
   \<and> (try_block h config endpoint verb params = Inl (FlowApiError msg code)
      \<longrightarrow> makeRequest h config endpoint verb params = Inl (FlowApiError msg code))
   \<and> (fetch h (build_request h config endpoint verb params) = Inl NotAnError
      \<longrightarrow> makeRequest h config endpoint verb params
          = Inl (FlowApiError ''Unknown error occurred'' (JNum 500)))
   \<and> catch_block (catch_block e) = catch_block e"
  by (cases e) (auto simp: makeRequest_def try_block_def)

theorem C9_transport_failure_mapping_witness:
  "makeRequest (rejecting (Error ''connect ECONNREFUSED'')) example_config
     ''/customer/getRegisterStatus'' GET (getRegisterStatus_params \<lparr>token = ''t1''\<rparr>)
   = Inl (FlowApiError ''connect ECONNREFUSED'' (JNum 500))
   \<and> makeRequest (rejecting (FlowApiError ''declined'' (JNum 7))) example_config
     ''/customer/getRegisterStatus'' GET (getRegisterStatus_params \<lparr>token = ''t1''\<rparr>)
   = Inl (FlowApiError ''declined'' (JNum 7))"
proof -
  have "makeRequest (rejecting (Error ''connect ECONNREFUSED'')) example_config
          ''/customer/getRegisterStatus'' GET (getRegisterStatus_params \<lparr>token = ''t1''\<rparr>)
        = Inl (FlowApiError ''connect ECONNREFUSED'' (JNum 500))"
    using C9_transport_failure_mapping [where h = "rejecting (Error ''connect ECONNREFUSED'')"
        and msg = "''connect ECONNREFUSED''" and config = example_config
        and endpoint = "''/customer/getRegisterStatus''" and verb = GET
        and params = "getRegisterStatus_params \<lparr>token = ''t1''\<rparr>"]
    by (simp add: rejecting_def)
  moreover have "makeRequest (rejecting (FlowApiError ''declined'' (JNum 7))) example_config
          ''/customer/getRegisterStatus'' GET (getRegisterStatus_params \<lparr>token = ''t1''\<rparr>)
        = Inl (FlowApiError ''declined'' (JNum 7))"
    using C9_transport_failure_mapping [where h = "rejecting (FlowApiError ''declined'' (JNum 7))"
        and msg = "''declined''" and code = "JNum 7" and config = example_config
        and endpoint = "''/customer/getRegisterStatus''" and verb = GET
        and params = "getRegisterStatus_params \<lparr>token = ''t1''\<rparr>"]
    by (simp add: rejecting_def)
  ultimately show ?thesis by (intro conjI)
qed

section \<open>Empty optional fields of a charge\<close>

text \<open>
  Claim C10. In a charge an optional field given as the empty string is treated as an
  absent one: the parameter set built is the same, each optional name is signed and sent
  exactly when its field is present and not empty, and no entry sent gives an optional
  name the empty string.
\<close>

theorem C10_empty_optional_is_absent:
  "chargeCustomer_params (r\<lparr>commerceOrder := Some []\<rparr>)
     = chargeCustomer_params (r\<lparr>commerceOrder := None\<rparr>)
   \<and> chargeCustomer_params (r\<lparr>CustomerChargeRequest.email := Some []\<rparr>)
     = chargeCustomer_params (r\<lparr>CustomerChargeRequest.email := None\<rparr>)
   \<and> chargeCustomer_params (r\<lparr>urlConfirmation := Some []\<rparr>)
     = chargeCustomer_params (r\<lparr>urlConfirmation := None\<rparr>)
   \<and> chargeCustomer_params (r\<lparr>urlReturn := Some []\<rparr>)
     = chargeCustomer_params (r\<lparr>urlReturn := None\<rparr>)
   \<and> (''commerceOrder'' \<in> set (wireNames h config (chargeCustomer_params r)))
     = provided (commerceOrder r)
   \<and> (''email'' \<in> set (wireNames h config (chargeCustomer_params r)))
     = provided (CustomerChargeRequest.email r)
   \<and> (''urlConfirmation'' \<in> set (wireNames h config (chargeCustomer_params r)))
     = provided (urlConfirmation r)
   \<and> (''urlReturn'' \<in> set (wireNames h config (chargeCustomer_params r)))
     = provided (urlReturn r)
   \<and> (''commerceOrder'' \<in> set (signNames config (chargeCustomer_params r)))
     = provided (commerceOrder r)
   \<and> (''email'' \<in> set (signNames config (chargeCustomer_params r)))
     = provided (CustomerChargeRequest.email r)
   \<and> (''urlConfirmation'' \<in> set (signNames config (chargeCustomer_params r)))
     = provided (urlConfirmation r)
   \<and> (''urlReturn'' \<in> set (signNames config (chargeCustomer_params r)))
     = provided (urlReturn r)
   \<and> (''commerceOrder'', []) \<notin> set (sortedEntries h (signedParams h config (chargeCustomer_params r)))
   \<and> (''email'', []) \<notin> set (sortedEntries h (signedParams h config (chargeCustomer_params r)))
   \<and> (''urlConfirmation'', []) \<notin> set (sortedEntries h (signedParams h config (chargeCustomer_params r)))
   \<and> (''urlReturn'', []) \<notin> set (sortedEntries h (signedParams h config (chargeCustomer_params r)))"
proof -
  have eqs: "chargeCustomer_params (r\<lparr>commerceOrder := Some []\<rparr>)
       = chargeCustomer_params (r\<lparr>commerceOrder := None\<rparr>)"
    "chargeCustomer_params (r\<lparr>CustomerChargeRequest.email := Some []\<rparr>)
       = chargeCustomer_params (r\<lparr>CustomerChargeRequest.email := None\<rparr>)"
    "chargeCustomer_params (r\<lparr>urlConfirmation := Some []\<rparr>)
       = chargeCustomer_params (r\<lparr>urlConfirmation := None\<rparr>)"
    "chargeCustomer_params (r\<lparr>urlReturn := Some []\<rparr>)
       = chargeCustomer_params (r\<lparr>urlReturn := None\<rparr>)"
    by (simp_all add: chargeCustomer_list)
  have w: "(''commerceOrder'' \<in> set (wireNames h config (chargeCustomer_params r)))
       = provided (commerceOrder r)"
    "(''email'' \<in> set (wireNames h config (chargeCustomer_params r)))
       = provided (CustomerChargeRequest.email r)"
    "(''urlConfirmation'' \<in> set (wireNames h config (chargeCustomer_params r)))
       = provided (urlConfirmation r)"
    "(''urlReturn'' \<in> set (wireNames h config (chargeCustomer_params r)))
       = provided (urlReturn r)"
    by (simp_all add: wireNames_set chargeCustomer_keys)
  have sn: "set (signNames config (chargeCustomer_params r))
        = insert ''apiKey'' (fst ` set (chargeCustomer_params r))"
    by (simp add: signNames_def sortedKeys_sort paramsWithApiKey_keys)
  have s: "(''commerceOrder'' \<in> set (signNames config (chargeCustomer_params r)))
       = provided (commerceOrder r)"
    "(''email'' \<in> set (signNames config (chargeCustomer_params r)))
       = provided (CustomerChargeRequest.email r)"
    "(''urlConfirmation'' \<in> set (signNames config (chargeCustomer_params r)))
       = provided (urlConfirmation r)"
    "(''urlReturn'' \<in> set (signNames config (chargeCustomer_params r)))
       = provided (urlReturn r)"
    by (simp_all add: sn chargeCustomer_keys)
  have ent: "set (sortedEntries h (signedParams h config (chargeCustomer_params r)))
         = insert (''s'', sign h config (paramsWithApiKey config (chargeCustomer_params r)))
             (insert (''apiKey'', apiKey config)
                ((\<lambda>e. (fst e, String_of (snd e))) ` set (chargeCustomer_params r)))"
    by (rule sent_entries) (simp_all add: chargeCustomer_wf chargeCustomer_keys)
  have e: "(''commerceOrder'', []) \<notin> set (sortedEntries h (signedParams h config (chargeCustomer_params r)))"
    "(''email'', []) \<notin> set (sortedEntries h (signedParams h config (chargeCustomer_params r)))"
    "(''urlConfirmation'', []) \<notin> set (sortedEntries h (signedParams h config (chargeCustomer_params r)))"
    "(''urlReturn'', []) \<notin> set (sortedEntries h (signedParams h config (chargeCustomer_params r)))"
    unfolding ent by (auto simp: chargeCustomer_list dest: providedD)
  from eqs w s e show ?thesis by (intro conjI)
qed

theorem C10_empty_optional_is_absent_witness:
  "chargeCustomer_params (plain_charge\<lparr>commerceOrder := Some []\<rparr>)
     = chargeCustomer_params plain_charge
   \<and> ''commerceOrder''
       \<notin> set (wireNames symbolic_host example_config
                (chargeCustomer_params (plain_charge\<lparr>commerceOrder := Some []\<rparr>)))"
proof -
  have "plain_charge\<lparr>commerceOrder := None\<rparr> = plain_charge"
    by (simp add: plain_charge_def)
  then show ?thesis
    using C10_empty_optional_is_absent [of plain_charge]
      C10_empty_optional_is_absent [of "plain_charge\<lparr>commerceOrder := Some []\<rparr>"
        symbolic_host example_config]
    by simp
qed

end
